theory Spec2Isabelle
  imports Main "HOL-Library.Word"
begin

unbundle bit_operations_syntax

section \<open>Values of the decoder\<close>

text \<open>
  The decoder of \<^verbatim>\<open>src/lib/schema.ts\<close> (class \<^verbatim>\<open>Decoder\<close>) is dynamically typed:
  \<^verbatim>\<open>decodeObject\<close> returns \<^verbatim>\<open>null\<close>, \<^verbatim>\<open>undefined\<close> (a registry miss) or one of the four
  \<^verbatim>\<open>Reference\<close> shapes, and the casts \<^verbatim>\<open>as ClassDescReference\<close>, \<^verbatim>\<open>as StringReference\<close>
  check nothing at run time. All values therefore live in one datatype.

  Conventions of the model:
  \<^item> an integral \<^verbatim>\<open>number\<close> is \<open>VNumber\<close>; a \<^verbatim>\<open>number\<close> read by \<^verbatim>\<open>getFloat32\<close> /
    \<^verbatim>\<open>getFloat64\<close> is kept as its big-endian bit pattern (\<open>VFloat\<close>, \<open>VDouble\<close>);
  \<^item> a \<^verbatim>\<open>bigint\<close> is \<open>VBigInt\<close> with its exact integer value;
  \<^item> a string is represented by its UTF-8 encoding, which determines it: \<open>TextDecoder_decode\<close>
    below gives the encoding of the string that \<^verbatim>\<open>new TextDecoder().decode\<close> returns, and
    the string literals of the source are ASCII;
  \<^item> a \<^verbatim>\<open>Record<string, unknown>\<close> is an association list in insertion order (the
    engine's own ordering of integer-like keys is not modelled; under Deno, the runtime
    of this program, \<^verbatim>\<open>__proto__\<close> is an ordinary key);
  \<^item> objects are never mutated after they are stored, so they are modelled by value;
  \<^item> handles and cursor positions are unbounded integers (a \<^verbatim>\<open>number\<close> is exact below
    \<open>2^53\<close>).
\<close>

type_synonym byte = "8 word"
type_synonym Handle = int

datatype jsvalue =
    VUndefined
  | VNull
  | VBoolean bool
  | VNumber int
  | VFloat int
  | VDouble int
  | VBigInt int
  | VString string
  | VArrayBuffer "byte list"
  | VArray "jsvalue list"
  | VRecord "(string \<times> jsvalue) list"
  | StringReference Handle string
  | ClassDescReference Handle ClassDesc
  | ObjectReference Handle ClassDesc "(string \<times> jsvalue) list" "jsvalue list"
  | ArrayReference Handle "ClassDesc option" "jsvalue list"
and ClassDesc =
    ClassDesc (className: string) (serialVersionUID: jsvalue) (classDescInfo: ClassDescInfo)
and ClassDescInfo =
    ClassDescInfo (classDescFlags: int) (fields: "FieldDesc list")
      (classAnnotation: "jsvalue list") (superClassDesc: jsvalue)
and FieldDesc =
    PrimitiveFieldDesc int string
  | ArrayFieldDesc string jsvalue
  | ObjectFieldDesc string jsvalue

fun fieldName :: "FieldDesc \<Rightarrow> string" where
  "fieldName (PrimitiveFieldDesc typecode name) = name"
| "fieldName (ArrayFieldDesc name className1) = name"
| "fieldName (ObjectFieldDesc name className1) = name"

section \<open>Constants\<close>

definition STREAM_MAGIC :: int where "STREAM_MAGIC = 0xaced"
definition STREAM_VERSION :: int where "STREAM_VERSION = 5"
definition TC_NULL :: int where "TC_NULL = 0x70"
definition TC_REFERENCE :: int where "TC_REFERENCE = 0x71"
definition TC_CLASSDESC :: int where "TC_CLASSDESC = 0x72"
definition TC_OBJECT :: int where "TC_OBJECT = 0x73"
definition TC_STRING :: int where "TC_STRING = 0x74"
definition TC_ARRAY :: int where "TC_ARRAY = 0x75"
definition TC_CLASS :: int where "TC_CLASS = 0x76"
definition TC_BLOCKDATA :: int where "TC_BLOCKDATA = 0x77"
definition TC_ENDBLOCKDATA :: int where "TC_ENDBLOCKDATA = 0x78"
definition TC_RESET :: int where "TC_RESET = 0x79"
definition TC_BLOCKDATALONG :: int where "TC_BLOCKDATALONG = 0x7A"
definition TC_EXCEPTION :: int where "TC_EXCEPTION = 0x7B"
definition TC_LONGSTRING :: int where "TC_LONGSTRING = 0x7C"
definition TC_PROXYCLASSDESC :: int where "TC_PROXYCLASSDESC = 0x7D"
definition TC_ENUM :: int where "TC_ENUM = 0x7E"
definition baseWireHandle :: int where "baseWireHandle = 0x7E0000"
definition SC_WRITE_METHOD :: int where "SC_WRITE_METHOD = 0x01"
definition SC_BLOCK_DATA :: int where "SC_BLOCK_DATA = 0x08"
definition SC_SERIALIZABLE :: int where "SC_SERIALIZABLE = 0x02"
definition SC_EXTERNALIZABLE :: int where "SC_EXTERNALIZABLE = 0x04"
definition SC_ENUM :: int where "SC_ENUM = 0x10"

definition TYPECODE_BYTE :: int where "TYPECODE_BYTE = 66"
definition TYPECODE_CHAR :: int where "TYPECODE_CHAR = 67"
definition TYPECODE_DOUBLE :: int where "TYPECODE_DOUBLE = 68"
definition TYPECODE_FLOAT :: int where "TYPECODE_FLOAT = 70"
definition TYPECODE_INTEGER :: int where "TYPECODE_INTEGER = 73"
definition TYPECODE_LONG :: int where "TYPECODE_LONG = 74"
definition TYPECODE_SHORT :: int where "TYPECODE_SHORT = 83"
definition TYPECODE_BOOLEAN :: int where "TYPECODE_BOOLEAN = 90"
definition TYPECODE_ARRAY :: int where "TYPECODE_ARRAY = 91"
definition TYPECODE_OBJECT :: int where "TYPECODE_OBJECT = 76"

section \<open>Outcomes\<close>

text \<open>
  Every \<^verbatim>\<open>throw\<close> of the source and every exception of the runtime it can provoke
  (\<^verbatim>\<open>RangeError\<close> of a \<^verbatim>\<open>DataView\<close> read out of bounds, \<^verbatim>\<open>TypeError\<close> of a property
  read on \<^verbatim>\<open>null\<close> / \<^verbatim>\<open>undefined\<close> or of \<^verbatim>\<open>new DataView\<close> on a non-buffer) is a value.
  The thrown strings are kept as constructors, with the interpolated data as arguments.
\<close>

datatype error =
    MagicMismatch                 \<comment> \<open>\<^verbatim>\<open>"magic !== STREAM_MAGIC"\<close>\<close>
  | UnknownTcAt int int           \<comment> \<open>\<^verbatim>\<open>decodeObject\<close>: position and tag of \<^verbatim>\<open>"unknown tc"\<close>\<close>
  | NotImplementedLongString      \<comment> \<open>\<^verbatim>\<open>"decodeNewString: not implemented TC_LONGSTRING"\<close>\<close>
  | UnsupportExternalizable       \<comment> \<open>\<^verbatim>\<open>"unsupport Externalizable"\<close>\<close>
  | UnknownTypecode int           \<comment> \<open>\<^verbatim>\<open>"unknown typecode: ..."\<close>\<close>
  | NotImplemented                \<comment> \<open>\<^verbatim>\<open>"not implemented"\<close> (proxy class descriptor)\<close>
  | UnknownTc int                 \<comment> \<open>\<^verbatim>\<open>decodeClassDesc\<close>: \<^verbatim>\<open>"unknown tc: 0x.."\<close>\<close>
  | RangeError
  | TypeError

text \<open>
  A call returns a value and the new state, throws (the state is the one reached when the
  exception was raised), or has not finished within the fuel it was given.
\<close>

datatype ('a, 's) outcome = Ok 'a 's | Throw error 's | OutOfFuel

definition return :: "'a \<Rightarrow> 's \<Rightarrow> ('a, 's) outcome" where
  "return x = (\<lambda>s. Ok x s)"

definition throw :: "error \<Rightarrow> 's \<Rightarrow> ('a, 's) outcome" where
  "throw e = (\<lambda>s. Throw e s)"

definition out_of_fuel :: "'s \<Rightarrow> ('a, 's) outcome" where
  "out_of_fuel = (\<lambda>s. OutOfFuel)"

definition bind :: "('s \<Rightarrow> ('a, 's) outcome) \<Rightarrow> ('a \<Rightarrow> 's \<Rightarrow> ('b, 's) outcome) \<Rightarrow> 's \<Rightarrow> ('b, 's) outcome" where
  "bind m f = (\<lambda>s. case m s of Ok x s' \<Rightarrow> f x s' | Throw e s' \<Rightarrow> Throw e s' | OutOfFuel \<Rightarrow> OutOfFuel)"

section \<open>ByteStream\<close>

record ByteStream =
  bytes :: "byte list"
  position :: int

definition ByteStream :: "byte list \<Rightarrow> ByteStream" where
  "ByteStream bs = \<lparr> bytes = bs, position = 0 \<rparr>"

definition length_bs :: "ByteStream \<Rightarrow> int" where
  "length_bs s = int (length (bytes s))"

definition eof :: "ByteStream \<Rightarrow> bool" where
  "eof s = (length_bs s \<le> position s)"

text \<open>Big-endian unsigned value of a byte sequence, and its two's complement reading.\<close>

definition be_uint :: "byte list \<Rightarrow> int" where
  "be_uint bs = foldl (\<lambda>acc b. acc * 256 + uint b) 0 bs"

definition be_sint :: "byte list \<Rightarrow> int" where
  "be_sint bs = (let v = be_uint bs; w = 2 ^ (8 * length bs)
                 in if 2 * v \<ge> w then v - w else v)"

text \<open>
  \<^verbatim>\<open>DataView.getX(position)\<close> on \<open>k\<close> bytes: a \<^verbatim>\<open>RangeError\<close> when the index is negative
  or the read passes the end of the buffer.
\<close>

definition getBytes :: "ByteStream \<Rightarrow> nat \<Rightarrow> byte list option" where
  "getBytes s k =
     (if 0 \<le> position s \<and> position s + int k \<le> length_bs s
      then Some (take k (drop (nat (position s)) (bytes s)))
      else None)"

text \<open>
  \<^verbatim>\<open>ArrayBuffer.prototype.slice(begin, end)\<close>: never throws; a negative index counts from
  the end, and both are clamped to the buffer.
\<close>

definition slice :: "byte list \<Rightarrow> int \<Rightarrow> int \<Rightarrow> byte list" where
  "slice bs begin end =
     (let len = int (length bs);
          first = (if begin < 0 then max (len + begin) 0 else min begin len);
          final = (if end < 0 then max (len + end) 0 else min end len)
      in take (nat (max (final - first) 0)) (drop (nat first) bs))"

definition peekByte :: "ByteStream \<Rightarrow> (int, ByteStream) outcome" where
  "peekByte s =
     (case getBytes s 1 of
        None \<Rightarrow> Throw RangeError s
      | Some bs \<Rightarrow> Ok (be_uint bs) s)"

text \<open>\<^verbatim>\<open>getUint8(this.position++)\<close>: the cursor has moved when the read throws.\<close>

definition readByte :: "ByteStream \<Rightarrow> (int, ByteStream) outcome" where
  "readByte s =
     (case getBytes s 1 of
        None \<Rightarrow> Throw RangeError (s\<lparr>position := position s + 1\<rparr>)
      | Some bs \<Rightarrow> Ok (be_uint bs) (s\<lparr>position := position s + 1\<rparr>))"

definition readBytes :: "int \<Rightarrow> ByteStream \<Rightarrow> (byte list, ByteStream) outcome" where
  "readBytes len s =
     Ok (slice (bytes s) (position s) (position s + len)) (s\<lparr>position := position s + len\<rparr>)"

definition readShort :: "ByteStream \<Rightarrow> (int, ByteStream) outcome" where
  "readShort s =
     (case getBytes s 2 of
        None \<Rightarrow> Throw RangeError s
      | Some bs \<Rightarrow> Ok (be_sint bs) (s\<lparr>position := position s + 2\<rparr>))"

definition readUShort :: "ByteStream \<Rightarrow> (int, ByteStream) outcome" where
  "readUShort s =
     (case getBytes s 2 of
        None \<Rightarrow> Throw RangeError s
      | Some bs \<Rightarrow> Ok (be_uint bs) (s\<lparr>position := position s + 2\<rparr>))"

definition readInt :: "ByteStream \<Rightarrow> (int, ByteStream) outcome" where
  "readInt s =
     (case getBytes s 4 of
        None \<Rightarrow> Throw RangeError s
      | Some bs \<Rightarrow> Ok (be_sint bs) (s\<lparr>position := position s + 4\<rparr>))"

definition readUInt :: "ByteStream \<Rightarrow> (int, ByteStream) outcome" where
  "readUInt s =
     (case getBytes s 4 of
        None \<Rightarrow> Throw RangeError s
      | Some bs \<Rightarrow> Ok (be_uint bs) (s\<lparr>position := position s + 4\<rparr>))"

text \<open>\<^verbatim>\<open>getBigInt64\<close> / \<^verbatim>\<open>getBigUint64\<close>: the result is a \<^verbatim>\<open>bigint\<close>, an exact integer.\<close>

definition readLong :: "ByteStream \<Rightarrow> (jsvalue, ByteStream) outcome" where
  "readLong s =
     (case getBytes s 8 of
        None \<Rightarrow> Throw RangeError s
      | Some bs \<Rightarrow> Ok (VBigInt (be_sint bs)) (s\<lparr>position := position s + 8\<rparr>))"

definition readULong :: "ByteStream \<Rightarrow> (jsvalue, ByteStream) outcome" where
  "readULong s =
     (case getBytes s 8 of
        None \<Rightarrow> Throw RangeError s
      | Some bs \<Rightarrow> Ok (VBigInt (be_uint bs)) (s\<lparr>position := position s + 8\<rparr>))"

definition readFloat :: "ByteStream \<Rightarrow> (jsvalue, ByteStream) outcome" where
  "readFloat s =
     (case getBytes s 4 of
        None \<Rightarrow> Throw RangeError s
      | Some bs \<Rightarrow> Ok (VFloat (be_uint bs)) (s\<lparr>position := position s + 4\<rparr>))"

definition readDouble :: "ByteStream \<Rightarrow> (jsvalue, ByteStream) outcome" where
  "readDouble s =
     (case getBytes s 8 of
        None \<Rightarrow> Throw RangeError s
      | Some bs \<Rightarrow> Ok (VDouble (be_uint bs)) (s\<lparr>position := position s + 8\<rparr>))"

definition string_of_bytes :: "byte list \<Rightarrow> string" where
  "string_of_bytes bs = map (\<lambda>b. char_of (unat b)) bs"

text \<open>
  \<^verbatim>\<open>new TextDecoder().decode(bytes)\<close>: the UTF-8 decoder of the Encoding standard, in
  replacement mode, dropping a leading byte-order mark. The decoder state is the bytes of
  the sequence under way, the number of bytes it still needs, and the bounds on the next
  continuation byte. A well-formed sequence is copied; every error gives U+FFFD, here
  its encoding \<open>EF BF BD\<close>; a byte that cannot continue a sequence is an error and is
  then read again as the start of a new one.
\<close>

type_synonym utf8_state = "byte list \<times> nat \<times> int \<times> int"

definition utf8_initial :: utf8_state where
  "utf8_initial = ([], 0, 0x80, 0xBF)"

definition utf8_replacement :: string where
  "utf8_replacement = string_of_bytes [0xEF, 0xBF, 0xBD]"

definition utf8_start :: "byte \<Rightarrow> string \<times> utf8_state" where
  "utf8_start b =
     (let v = uint b in
      if v \<le> 0x7F then (string_of_bytes [b], utf8_initial)
      else if 0xC2 \<le> v \<and> v \<le> 0xDF then ([], ([b], 1, 0x80, 0xBF))
      else if 0xE0 \<le> v \<and> v \<le> 0xEF then
        ([], ([b], 2, if v = 0xE0 then 0xA0 else 0x80, if v = 0xED then 0x9F else 0xBF))
      else if 0xF0 \<le> v \<and> v \<le> 0xF4 then
        ([], ([b], 3, if v = 0xF0 then 0x90 else 0x80, if v = 0xF4 then 0x8F else 0xBF))
      else (utf8_replacement, utf8_initial))"

definition utf8_step :: "utf8_state \<Rightarrow> byte \<Rightarrow> string \<times> utf8_state" where
  "utf8_step st b =
     (case st of (pending, needed, lower, upper) \<Rightarrow>
        if needed = 0 then utf8_start b
        else if uint b < lower \<or> upper < uint b then
          (case utf8_start b of (out, st') \<Rightarrow> (utf8_replacement @ out, st'))
        else if needed = 1 then (string_of_bytes (pending @ [b]), utf8_initial)
        else ([], (pending @ [b], needed - 1, 0x80, 0xBF)))"

fun utf8_run :: "utf8_state \<Rightarrow> byte list \<Rightarrow> string" where
  "utf8_run st [] = (case st of (pending, needed, lower, upper) \<Rightarrow>
                       if needed \<noteq> 0 then utf8_replacement else [])"
| "utf8_run st (b # bs) = (case utf8_step st b of (out, st') \<Rightarrow> out @ utf8_run st' bs)"

definition TextDecoder_decode :: "byte list \<Rightarrow> string" where
  "TextDecoder_decode bs =
     utf8_run utf8_initial (if take 3 bs = [0xEF, 0xBB, 0xBF] then drop 3 bs else bs)"

definition readUTF :: "ByteStream \<Rightarrow> (string, ByteStream) outcome" where
  "readUTF s =
     (case readUShort s of
        Ok len s1 \<Rightarrow>
          Ok (TextDecoder_decode (slice (bytes s1) (position s1) (position s1 + len)))
             (s1\<lparr>position := position s1 + len\<rparr>)
      | Throw e s1 \<Rightarrow> Throw e s1
      | OutOfFuel \<Rightarrow> OutOfFuel)"

section \<open>Pure helpers of the decoder\<close>

text \<open>JavaScript truthiness (\<^verbatim>\<open>if (x)\<close>, \<^verbatim>\<open>!x\<close>).\<close>

fun truthy :: "jsvalue \<Rightarrow> bool" where
  "truthy VUndefined = False"
| "truthy VNull = False"
| "truthy (VBoolean b) = b"
| "truthy (VNumber n) = (n \<noteq> 0)"
| "truthy (VFloat b) = (\<not> (b mod 2 ^ 31 = 0 \<or> b mod 2 ^ 31 > 0x7F800000))"
| "truthy (VDouble b) = (\<not> (b mod 2 ^ 63 = 0 \<or> b mod 2 ^ 63 > 0x7FF0000000000000))"
| "truthy (VBigInt n) = (n \<noteq> 0)"
| "truthy (VString s) = (s \<noteq> [])"
| "truthy v = True"

text \<open>
  The property read \<^verbatim>\<open>x.classDesc\<close> on a value that is neither \<^verbatim>\<open>null\<close> nor
  \<^verbatim>\<open>undefined\<close>: \<open>None\<close> is \<^verbatim>\<open>undefined\<close>. Only \<^verbatim>\<open>null\<close>, \<^verbatim>\<open>undefined\<close> and the four
  reference shapes reach a class-descriptor position.
\<close>

fun get_classDesc :: "jsvalue \<Rightarrow> ClassDesc option" where
  "get_classDesc (ClassDescReference h cd) = Some cd"
| "get_classDesc (ObjectReference h cd obj ann) = Some cd"
| "get_classDesc (ArrayReference h cdo arr) = cdo"
| "get_classDesc v = None"

text \<open>The same read, with the \<^verbatim>\<open>TypeError\<close> of \<^verbatim>\<open>null.classDesc\<close> and \<^verbatim>\<open>undefined.classDesc\<close>.\<close>

definition prop_classDesc :: "jsvalue \<Rightarrow> error + ClassDesc option" where
  "prop_classDesc v =
     (if v = VNull \<or> v = VUndefined then Inl TypeError else Inr (get_classDesc v))"

text \<open>
  \<^verbatim>\<open>allFieldsFromClassDesc\<close>. The argument of the recursive call is
  \<^verbatim>\<open>superClassDesc.classDesc\<close>; when that is \<^verbatim>\<open>undefined\<close> the callee's first property read
  throws a \<^verbatim>\<open>TypeError\<close>.
\<close>

function allFieldsFromClassDesc :: "ClassDesc \<Rightarrow> error + FieldDesc list" where
  "allFieldsFromClassDesc classDesc =
     (if truthy (superClassDesc (classDescInfo classDesc)) then
        (case get_classDesc (superClassDesc (classDescInfo classDesc)) of
           None \<Rightarrow> Inl TypeError
         | Some super \<Rightarrow>
             (case allFieldsFromClassDesc super of
                Inl e \<Rightarrow> Inl e
              | Inr inherited \<Rightarrow> Inr (inherited @ ClassDescInfo.fields (classDescInfo classDesc))))
      else Inr (ClassDescInfo.fields (classDescInfo classDesc)))"
  by pat_completeness auto
termination
proof (relation "measure size")
  show "wf (measure size)" by simp
next
  fix classDesc :: ClassDesc and super :: ClassDesc
  assume "get_classDesc (superClassDesc (classDescInfo classDesc)) = Some super"
  then have "size super < size (superClassDesc (classDescInfo classDesc))"
    by (cases "superClassDesc (classDescInfo classDesc)") auto
  also have "\<dots> < size classDesc"
    by (cases classDesc, cases "classDescInfo classDesc") auto
  finally show "(super, classDesc) \<in> measure size" by simp
qed

declare allFieldsFromClassDesc.simps [simp del]

text \<open>Property read and property assignment on a \<^verbatim>\<open>Record<string, unknown>\<close>.\<close>

definition get_prop :: "(string \<times> jsvalue) list \<Rightarrow> string \<Rightarrow> jsvalue" where
  "get_prop obj k = (case map_of obj k of None \<Rightarrow> VUndefined | Some v \<Rightarrow> v)"

fun assign :: "(string \<times> jsvalue) list \<Rightarrow> string \<Rightarrow> jsvalue \<Rightarrow> (string \<times> jsvalue) list" where
  "assign [] k v = [(k, v)]"
| "assign (p # ps) k v = (if fst p = k then (k, v) # ps else p # assign ps k v)"

text \<open>
  \<^verbatim>\<open>simplifyReference\<close>. Its parameter type is \<^verbatim>\<open>Reference | null\<close>; a registry miss adds
  \<^verbatim>\<open>undefined\<close>. The last equation covers \<^verbatim>\<open>null\<close>, \<^verbatim>\<open>undefined\<close> and a class-descriptor
  reference, which are returned as they are.
\<close>

fun simplifyReference :: "jsvalue \<Rightarrow> jsvalue" where
  "simplifyReference (StringReference h s) = VString s"
| "simplifyReference (ArrayReference h cd arr) = VArray (map simplifyReference arr)"
| "simplifyReference (ObjectReference h cd obj ann) =
     (if className cd = ''java.util.Date'' then get_prop obj ''date'' else VRecord obj)"
| "simplifyReference v = v"

subsection \<open>The date conversion\<close>

text \<open>
  \<^verbatim>\<open>new Date(Number(msec)).toJSON()\<close> for a \<^verbatim>\<open>bigint\<close> \<open>msec \<ge> 0\<close>. A time value beyond
  8.64e15 ms is an invalid date, whose \<^verbatim>\<open>toJSON()\<close> is \<^verbatim>\<open>null\<close>; the conversion to a double
  is exact below that bound and monotone above it. Otherwise the result is
  \<^verbatim>\<open>toISOString()\<close>: the proleptic Gregorian date in UTC, with a four-digit year up to
  9999 and a signed six-digit year beyond.
\<close>

fun digits :: "nat \<Rightarrow> int \<Rightarrow> string" where
  "digits 0 n = []"
| "digits (Suc k) n = digits k (n div 10) @ [char_of (48 + n mod 10)]"

definition civil_from_days :: "int \<Rightarrow> int \<times> int \<times> int" where
  "civil_from_days days =
     (let z = days + 719468;
          era = z div 146097;
          doe = z - era * 146097;
          yoe = (doe - doe div 1460 + doe div 36524 - doe div 146096) div 365;
          doy = doe - (365 * yoe + yoe div 4 - yoe div 100);
          mp = (5 * doy + 2) div 153;
          d = doy - (153 * mp + 2) div 5 + 1;
          m = (if mp < 10 then mp + 3 else mp - 9);
          y = yoe + era * 400 + (if m \<le> 2 then 1 else 0)
      in (y, m, d))"

definition toISOString :: "int \<Rightarrow> string" where
  "toISOString t =
     (let (y, m, d) = civil_from_days (t div 86400000);
          r = t mod 86400000
      in (if 0 \<le> y \<and> y \<le> 9999 then digits 4 y
          else (if y < 0 then ''-'' else ''+'') @ digits 6 \<bar>y\<bar>)
         @ ''-'' @ digits 2 m @ ''-'' @ digits 2 d
         @ ''T'' @ digits 2 (r div 3600000)
         @ '':'' @ digits 2 (r div 60000 mod 60)
         @ '':'' @ digits 2 (r div 1000 mod 60)
         @ ''.'' @ digits 3 (r mod 1000) @ ''Z'')"

definition Date_toJSON :: "int \<Rightarrow> jsvalue" where
  "Date_toJSON msec =
     (if msec > 8640000000000000 then VNull else VString (toISOString msec))"

section \<open>The decoder\<close>

record Decoder =
  input :: ByteStream
  handle :: int
  objectRegistry :: "Handle \<Rightarrow> jsvalue option"

text \<open>The constructor: the counter starts at \<^verbatim>\<open>baseWireHandle\<close>, the registry is empty.\<close>

definition Decoder :: "ByteStream \<Rightarrow> Decoder" where
  "Decoder i = \<lparr> input = i, handle = baseWireHandle, objectRegistry = Map.empty \<rparr>"

text \<open>A method call \<^verbatim>\<open>this.input.m()\<close>.\<close>

definition onInput :: "(ByteStream \<Rightarrow> ('a, ByteStream) outcome) \<Rightarrow> Decoder \<Rightarrow> ('a, Decoder) outcome" where
  "onInput m d =
     (case m (input d) of
        Ok x i \<Rightarrow> Ok x (d\<lparr>input := i\<rparr>)
      | Throw e i \<Rightarrow> Throw e (d\<lparr>input := i\<rparr>)
      | OutOfFuel \<Rightarrow> OutOfFuel)"

text \<open>A pure call that may throw.\<close>

definition lift :: "error + 'a \<Rightarrow> 's \<Rightarrow> ('a, 's) outcome" where
  "lift r = (case r of Inl e \<Rightarrow> throw e | Inr x \<Rightarrow> return x)"

text \<open>\<^verbatim>\<open>nextHandle\<close>: \<^verbatim>\<open>return this.handle++\<close>.\<close>

definition nextHandle :: "Decoder \<Rightarrow> (Handle, Decoder) outcome" where
  "nextHandle d = Ok (handle d) (d\<lparr>handle := handle d + 1\<rparr>)"

text \<open>The statement \<^verbatim>\<open>return this.objectRegistry[handle] = ref\<close>.\<close>

definition store :: "Handle \<Rightarrow> jsvalue \<Rightarrow> Decoder \<Rightarrow> (jsvalue, Decoder) outcome" where
  "store h ref d = Ok ref (d\<lparr>objectRegistry := (objectRegistry d)(h \<mapsto> ref)\<rparr>)"

text \<open>\<^verbatim>\<open>decodeReference\<close>: a missing key reads as \<^verbatim>\<open>undefined\<close>.\<close>

definition decodeReference :: "Decoder \<Rightarrow> (jsvalue, Decoder) outcome" where
  "decodeReference =
     bind (onInput readInt) (\<lambda>h d.
       Ok (case objectRegistry d h of None \<Rightarrow> VUndefined | Some ref \<Rightarrow> ref) d)"

definition decodeNewString :: "bool \<Rightarrow> Decoder \<Rightarrow> (jsvalue, Decoder) outcome" where
  "decodeNewString longString =
     bind nextHandle (\<lambda>h.
       if longString then throw NotImplementedLongString
       else bind (onInput readUTF) (\<lambda>str. store h (StringReference h str)))"

definition decodePrimitiveValue :: "int \<Rightarrow> Decoder \<Rightarrow> (jsvalue, Decoder) outcome" where
  "decodePrimitiveValue typecode =
     (if typecode = TYPECODE_BYTE then bind (onInput readByte) (\<lambda>v. return (VNumber v))
      else if typecode = TYPECODE_CHAR then bind (onInput readUShort) (\<lambda>v. return (VNumber v))
      else if typecode = TYPECODE_DOUBLE then onInput readDouble
      else if typecode = TYPECODE_FLOAT then onInput readFloat
      else if typecode = TYPECODE_INTEGER then bind (onInput readInt) (\<lambda>v. return (VNumber v))
      else if typecode = TYPECODE_LONG then onInput readLong
      else if typecode = TYPECODE_SHORT then bind (onInput readShort) (\<lambda>v. return (VNumber v))
      else if typecode = TYPECODE_BOOLEAN then bind (onInput readByte) (\<lambda>v. return (VBoolean (v = 1)))
      else throw (UnknownTypecode typecode))"

definition isPrimitiveTypecode :: "int \<Rightarrow> bool" where
  "isPrimitiveTypecode typecode =
     (typecode = TYPECODE_BYTE \<or> typecode = TYPECODE_CHAR \<or> typecode = TYPECODE_DOUBLE \<or>
      typecode = TYPECODE_FLOAT \<or> typecode = TYPECODE_INTEGER \<or> typecode = TYPECODE_LONG \<or>
      typecode = TYPECODE_SHORT \<or> typecode = TYPECODE_BOOLEAN)"

text \<open>
  The tail of \<^verbatim>\<open>decodeNewObject\<close>, after the class data: the \<^verbatim>\<open>java.util.Date\<close> case reads
  \<^verbatim>\<open>objectAnnotation[0]\<close> through a \<^verbatim>\<open>DataView\<close> (\<^verbatim>\<open>TypeError\<close> unless it is an
  \<^verbatim>\<open>ArrayBuffer\<close>, \<^verbatim>\<open>RangeError\<close> when it has fewer than 8 bytes).
\<close>

definition finishNewObject ::
  "Handle \<Rightarrow> ClassDesc \<Rightarrow> (string \<times> jsvalue) list \<Rightarrow> jsvalue list \<Rightarrow> Decoder \<Rightarrow> (jsvalue, Decoder) outcome" where
  "finishNewObject h classDesc classData objectAnnotation =
     (if className classDesc = ''java.util.Date'' then
        (case objectAnnotation of
           VArrayBuffer timestamp # rest \<Rightarrow>
             if length timestamp < 8 then throw RangeError
             else store h (ObjectReference h classDesc
                    [(''date'', Date_toJSON (be_uint (take 8 timestamp)))] objectAnnotation)
         | _ \<Rightarrow> throw TypeError)
      else store h (ObjectReference h classDesc classData objectAnnotation))"

text \<open>
  The recursive descent. The first argument is fuel: every call and every loop iteration
  takes one unit, and a call with no fuel left has not finished. The loops of the source
  are the functions \<open>decodeNewObject_fields\<close> (\<^verbatim>\<open>fields.forEach\<close>), \<open>decodeAnnotation\<close>
  (the two \<^verbatim>\<open>while (peekByte() !== TC_ENDBLOCKDATA)\<close> loops), \<open>decodeNewArray_values\<close> and
  \<open>decodeClassDescInfo_fields\<close> (the two \<^verbatim>\<open>for\<close> loops). \<^verbatim>\<open>console.log\<close> is not modelled.
\<close>

fun decodeContent :: "nat \<Rightarrow> Decoder \<Rightarrow> (jsvalue, Decoder) outcome"
and decodeObject :: "nat \<Rightarrow> Decoder \<Rightarrow> (jsvalue, Decoder) outcome"
and decodeNewObject :: "nat \<Rightarrow> Decoder \<Rightarrow> (jsvalue, Decoder) outcome"
and decodeNewObject_fields ::
  "nat \<Rightarrow> FieldDesc list \<Rightarrow> (string \<times> jsvalue) list \<Rightarrow> Decoder \<Rightarrow> ((string \<times> jsvalue) list, Decoder) outcome"
and decodeAnnotation :: "nat \<Rightarrow> jsvalue list \<Rightarrow> Decoder \<Rightarrow> (jsvalue list, Decoder) outcome"
and decodeNewArray :: "nat \<Rightarrow> Decoder \<Rightarrow> (jsvalue, Decoder) outcome"
and decodeNewArray_values :: "nat \<Rightarrow> int \<Rightarrow> int \<Rightarrow> jsvalue list \<Rightarrow> Decoder \<Rightarrow> (jsvalue list, Decoder) outcome"
and decodeValues :: "nat \<Rightarrow> FieldDesc \<Rightarrow> Decoder \<Rightarrow> (jsvalue, Decoder) outcome"
and decodeClassDesc :: "nat \<Rightarrow> int option \<Rightarrow> Decoder \<Rightarrow> (jsvalue, Decoder) outcome"
and decodeClassDescInfo :: "nat \<Rightarrow> Decoder \<Rightarrow> (ClassDescInfo, Decoder) outcome"
and decodeClassDescInfo_fields ::
  "nat \<Rightarrow> int \<Rightarrow> int \<Rightarrow> FieldDesc list \<Rightarrow> Decoder \<Rightarrow> (FieldDesc list, Decoder) outcome"
where
  "decodeContent 0 = out_of_fuel"
| "decodeContent (Suc n) =
     bind (onInput peekByte) (\<lambda>tc.
       if tc = TC_BLOCKDATA then
         bind (onInput readByte) (\<lambda>_.
         bind (onInput readByte) (\<lambda>size.
         bind (onInput (readBytes size)) (\<lambda>buf. return (VArrayBuffer buf))))
       else if tc = TC_BLOCKDATALONG then
         bind (onInput readByte) (\<lambda>_.
         bind (onInput readInt) (\<lambda>size.
         bind (onInput (readBytes size)) (\<lambda>buf. return (VArrayBuffer buf))))
       else decodeObject n)"

| "decodeObject 0 = out_of_fuel"
| "decodeObject (Suc n) =
     bind (onInput readByte) (\<lambda>tc.
       if tc = TC_NULL then return VNull
       else if tc = TC_REFERENCE then decodeReference
       else if tc = TC_CLASSDESC then decodeClassDesc n (Some tc)
       else if tc = TC_OBJECT then decodeNewObject n
       else if tc = TC_STRING then decodeNewString False
       else if tc = TC_LONGSTRING then decodeNewString True
       else if tc = TC_ARRAY then decodeNewArray n
       else if tc = TC_PROXYCLASSDESC then decodeClassDesc n (Some tc)
       else (\<lambda>d. Throw (UnknownTcAt (position (input d)) tc) d))"

| "decodeNewObject 0 = out_of_fuel"
| "decodeNewObject (Suc n) =
     bind (decodeClassDesc n None) (\<lambda>ref.
     bind (lift (prop_classDesc ref)) (\<lambda>classDescOrUndefined.
     bind nextHandle (\<lambda>h.
       case classDescOrUndefined of
         None \<Rightarrow> throw TypeError
       | Some classDesc \<Rightarrow>
           bind (lift (allFieldsFromClassDesc classDesc)) (\<lambda>fields.
           bind
             (if classDescFlags (classDescInfo classDesc) AND SC_SERIALIZABLE \<noteq> 0 then
                if classDescFlags (classDescInfo classDesc) AND SC_WRITE_METHOD \<noteq> 0 then
                  bind (decodeNewObject_fields n fields []) (\<lambda>classData.
                  bind (decodeAnnotation n []) (\<lambda>objectAnnotation.
                  bind (onInput readByte) (\<lambda>_.
                    return (classData, objectAnnotation))))
                else
                  bind (decodeNewObject_fields n fields []) (\<lambda>classData.
                    return (classData, []))
              else if classDescFlags (classDescInfo classDesc) AND SC_EXTERNALIZABLE \<noteq> 0 then
                throw UnsupportExternalizable
              else return ([], []))
             (\<lambda>(classData, objectAnnotation).
                finishNewObject h classDesc classData objectAnnotation)))))"

| "decodeNewObject_fields 0 = (\<lambda>fieldList classData. out_of_fuel)"
| "decodeNewObject_fields (Suc n) = (\<lambda>fieldList classData.
     case fieldList of
       [] \<Rightarrow> return classData
     | field # rest \<Rightarrow>
         bind (decodeValues n field) (\<lambda>v.
           decodeNewObject_fields n rest (assign classData (fieldName field) v)))"

| "decodeAnnotation 0 = (\<lambda>annotation. out_of_fuel)"
| "decodeAnnotation (Suc n) = (\<lambda>annotation.
     bind (onInput peekByte) (\<lambda>tc.
       if tc \<noteq> TC_ENDBLOCKDATA then
         bind (decodeContent n) (\<lambda>content. decodeAnnotation n (annotation @ [content]))
       else return annotation))"

| "decodeNewArray 0 = out_of_fuel"
| "decodeNewArray (Suc n) =
     bind (decodeClassDesc n None) (\<lambda>ref.
     bind (lift (prop_classDesc ref)) (\<lambda>classDesc.
     bind nextHandle (\<lambda>h.
     bind (onInput readInt) (\<lambda>size.
     bind (decodeNewArray_values n 0 size []) (\<lambda>values.
       store h (ArrayReference h classDesc values))))))"

| "decodeNewArray_values 0 = (\<lambda>index count values. out_of_fuel)"
| "decodeNewArray_values (Suc n) = (\<lambda>index count values.
     if index < count then
       bind (decodeObject n) (\<lambda>v. decodeNewArray_values n (index + 1) count (values @ [v]))
     else return values)"

| "decodeValues 0 = (\<lambda>fieldDesc. out_of_fuel)"
| "decodeValues (Suc n) = (\<lambda>fieldDesc.
     case fieldDesc of
       PrimitiveFieldDesc typecode name \<Rightarrow> decodePrimitiveValue typecode
     | ArrayFieldDesc name className1 \<Rightarrow>
         bind (decodeObject n) (\<lambda>ref. return (simplifyReference ref))
     | ObjectFieldDesc name className1 \<Rightarrow>
         bind (decodeObject n) (\<lambda>ref. return (simplifyReference ref)))"

| "decodeClassDesc 0 = (\<lambda>tcArg. out_of_fuel)"
| "decodeClassDesc (Suc n) = (\<lambda>tcArg.
     bind (case tcArg of None \<Rightarrow> onInput readByte | Some tc \<Rightarrow> return tc) (\<lambda>tc.
       if tc = TC_CLASSDESC then
         bind (onInput readUTF) (\<lambda>name.
         bind (onInput readULong) (\<lambda>uid.
         bind nextHandle (\<lambda>h.
         bind (decodeClassDescInfo n) (\<lambda>info.
           store h (ClassDescReference h (ClassDesc name uid info))))))
       else if tc = TC_PROXYCLASSDESC then throw NotImplemented
       else if tc = TC_NULL then return VNull
       else if tc = TC_REFERENCE then decodeReference
       else throw (UnknownTc tc)))"

| "decodeClassDescInfo 0 = out_of_fuel"
| "decodeClassDescInfo (Suc n) =
     bind (onInput readByte) (\<lambda>flags.
     bind (onInput readUShort) (\<lambda>fieldsCount.
     bind (decodeClassDescInfo_fields n 0 fieldsCount []) (\<lambda>fields.
     bind (decodeAnnotation n []) (\<lambda>annotation.
     bind (onInput readByte) (\<lambda>_.
     bind (decodeClassDesc n None) (\<lambda>super.
       return (ClassDescInfo flags fields annotation super)))))))"

| "decodeClassDescInfo_fields 0 = (\<lambda>fieldIndex fieldsCount fieldList. out_of_fuel)"
| "decodeClassDescInfo_fields (Suc n) = (\<lambda>fieldIndex fieldsCount fieldList.
     if fieldIndex < fieldsCount then
        bind (onInput readByte) (\<lambda>typecode.
          if isPrimitiveTypecode typecode then
            bind (onInput readUTF) (\<lambda>name.
              decodeClassDescInfo_fields n (fieldIndex + 1) fieldsCount
                (fieldList @ [PrimitiveFieldDesc typecode name]))
          else if typecode = TYPECODE_ARRAY then
            bind (onInput readUTF) (\<lambda>name.
            bind (decodeObject n) (\<lambda>className1.
              decodeClassDescInfo_fields n (fieldIndex + 1) fieldsCount
                (fieldList @ [ArrayFieldDesc name className1])))
          else if typecode = TYPECODE_OBJECT then
            bind (onInput readUTF) (\<lambda>name.
            bind (decodeObject n) (\<lambda>className1.
              decodeClassDescInfo_fields n (fieldIndex + 1) fieldsCount
                (fieldList @ [ObjectFieldDesc name className1])))
          else throw (UnknownTypecode typecode))
      else return fieldList)"

text \<open>
  The loop of \<^verbatim>\<open>decode\<close>: a content that is an \<^verbatim>\<open>ArrayBuffer\<close> is pushed as it is, any other
  goes through \<^verbatim>\<open>simplifyReference\<close>.
\<close>

fun isArrayBuffer :: "jsvalue \<Rightarrow> bool" where
  "isArrayBuffer (VArrayBuffer b) = True"
| "isArrayBuffer v = False"

fun decode_contents :: "nat \<Rightarrow> jsvalue list \<Rightarrow> Decoder \<Rightarrow> (jsvalue list, Decoder) outcome" where
  "decode_contents 0 = (\<lambda>contents. out_of_fuel)"
| "decode_contents (Suc n) = (\<lambda>contents d.
          if eof (input d) then Ok contents d
          else bind (decodeContent n) (\<lambda>content.
                 decode_contents n
                   (contents @ [if isArrayBuffer content then content
                                else simplifyReference content])) d)"

text \<open>\<^verbatim>\<open>Decoder.decode\<close>, and the exported \<^verbatim>\<open>decode(input)\<close> that builds the decoder.\<close>

definition decode_method :: "nat \<Rightarrow> Decoder \<Rightarrow> (jsvalue list, Decoder) outcome" where
  "decode_method fuel =
     bind (onInput readUShort) (\<lambda>magic.
       if magic \<noteq> STREAM_MAGIC then throw MagicMismatch
       else bind (onInput readUShort) (\<lambda>version. decode_contents fuel []))"

definition decode :: "nat \<Rightarrow> ByteStream \<Rightarrow> (jsvalue list, Decoder) outcome" where
  "decode fuel i = decode_method fuel (Decoder i)"

section \<open>Notions of the specification\<close>

text \<open>
  A superclass chain, written from the most distant ancestor to the class itself: the
  first descriptor has no superclass (its link is \<^verbatim>\<open>null\<close>), and the superclass link of
  every later descriptor is a reference that carries the descriptor before it.
  \<open>linked p cs\<close> says so of the descriptors \<open>cs\<close> that follow \<open>p\<close>.
\<close>

fun linked :: "ClassDesc \<Rightarrow> ClassDesc list \<Rightarrow> bool" where
  "linked p [] = True"
| "linked p (c # cs) =
     (truthy (superClassDesc (classDescInfo c))
      \<and> get_classDesc (superClassDesc (classDescInfo c)) = Some p
      \<and> linked c cs)"

fun superclass_chain :: "ClassDesc list \<Rightarrow> bool" where
  "superclass_chain [] = False"
| "superclass_chain (root # cs) =
     (\<not> truthy (superClassDesc (classDescInfo root)) \<and> linked root cs)"

section \<open>The handle registry: what a call may change\<close>

text \<open>
  The \<^verbatim>\<open>handle\<close> property of a reference record.
\<close>

fun handle_of :: "jsvalue \<Rightarrow> Handle option" where
  "handle_of (StringReference h s) = Some h"
| "handle_of (ClassDescReference h cd) = Some h"
| "handle_of (ObjectReference h cd obj ann) = Some h"
| "handle_of (ArrayReference h cd arr) = Some h"
| "handle_of v = None"

text \<open>
  \<open>grows d d'\<close>: from \<open>d\<close> to \<open>d'\<close> the counter has not gone down, and the registry has
  changed at most at the handles handed out in between. \<open>filled d h\<close>: the registry holds,
  under \<open>h\<close>, a record that carries the handle \<open>h\<close>. \<open>allocates d d'\<close>: moreover every
  handle handed out in between is filled. \<open>allocates_but p d d'\<close>: the same, but for the
  handle \<open>p\<close>, handed out and not stored yet.
\<close>

definition grows :: "Decoder \<Rightarrow> Decoder \<Rightarrow> bool" where
  "grows d d' =
     (handle d \<le> handle d' \<and>
      (\<forall>h. h < handle d \<or> handle d' \<le> h \<longrightarrow> objectRegistry d' h = objectRegistry d h))"

definition filled :: "Decoder \<Rightarrow> Handle \<Rightarrow> bool" where
  "filled d h = (\<exists>r. objectRegistry d h = Some r \<and> handle_of r = Some h)"

definition allocates :: "Decoder \<Rightarrow> Decoder \<Rightarrow> bool" where
  "allocates d d' = (grows d d' \<and> (\<forall>h. handle d \<le> h \<and> h < handle d' \<longrightarrow> filled d' h))"

definition allocates_but :: "Handle \<Rightarrow> Decoder \<Rightarrow> Decoder \<Rightarrow> bool" where
  "allocates_but p d d' =
     (grows d d' \<and> handle d \<le> p \<and> p < handle d' \<and>
      (\<forall>h. handle d \<le> h \<and> h < handle d' \<and> h \<noteq> p \<longrightarrow> filled d' h))"

text \<open>
  The three judgements on a computation: \<open>allocating m\<close> when a returning run of \<open>m\<close>
  allocates and a throwing run grows; \<open>keeps p m\<close> and \<open>fills p m\<close> for a computation
  run while the handle \<open>p\<close> is pending, which leaves it pending or stores it.
\<close>

definition allocating :: "(Decoder \<Rightarrow> ('a, Decoder) outcome) \<Rightarrow> bool" where
  "allocating m =
     (\<forall>d. case m d of Ok x d' \<Rightarrow> allocates d d' | Throw e d' \<Rightarrow> grows d d' | OutOfFuel \<Rightarrow> True)"

definition keeps :: "Handle \<Rightarrow> (Decoder \<Rightarrow> ('a, Decoder) outcome) \<Rightarrow> bool" where
  "keeps p m =
     (\<forall>d0 d. allocates_but p d0 d \<longrightarrow>
        (case m d of Ok x d' \<Rightarrow> allocates_but p d0 d' | Throw e d' \<Rightarrow> grows d0 d' | OutOfFuel \<Rightarrow> True))"

definition fills :: "Handle \<Rightarrow> (Decoder \<Rightarrow> ('a, Decoder) outcome) \<Rightarrow> bool" where
  "fills p m =
     (\<forall>d0 d. allocates_but p d0 d \<longrightarrow>
        (case m d of Ok x d' \<Rightarrow> allocates d0 d' | Throw e d' \<Rightarrow> grows d0 d' | OutOfFuel \<Rightarrow> True))"

text \<open>
  \<open>refines m m'\<close>: wherever \<open>m\<close> finishes, \<open>m'\<close> gives the same outcome. It relates a
  function of the decoder to the same function with more fuel.
\<close>

definition refines :: "('s \<Rightarrow> ('a, 't) outcome) \<Rightarrow> ('s \<Rightarrow> ('a, 't) outcome) \<Rightarrow> bool" where
  "refines m m' = (\<forall>s. m s \<noteq> OutOfFuel \<longrightarrow> m' s = m s)"

section \<open>Unfolding lemmas\<close>

lemmas tc_defs =
  TC_NULL_def TC_REFERENCE_def TC_CLASSDESC_def TC_OBJECT_def TC_STRING_def TC_ARRAY_def
  TC_CLASS_def TC_BLOCKDATA_def TC_ENDBLOCKDATA_def TC_RESET_def TC_BLOCKDATALONG_def
  TC_EXCEPTION_def TC_LONGSTRING_def TC_PROXYCLASSDESC_def TC_ENUM_def

lemmas typecode_defs =
  TYPECODE_BYTE_def TYPECODE_CHAR_def TYPECODE_DOUBLE_def TYPECODE_FLOAT_def
  TYPECODE_INTEGER_def TYPECODE_LONG_def TYPECODE_SHORT_def TYPECODE_BOOLEAN_def
  TYPECODE_ARRAY_def TYPECODE_OBJECT_def

lemmas stream_defs =
  readByte_def peekByte_def readBytes_def readShort_def readUShort_def readInt_def
  readUInt_def readLong_def readULong_def readFloat_def readDouble_def readUTF_def
  getBytes_def length_bs_def eof_def slice_def be_uint_def be_sint_def ByteStream_def

lemmas monad_defs = bind_def return_def throw_def out_of_fuel_def onInput_def lift_def

lemmas decoder_defs =
  Decoder_def nextHandle_def store_def decodeReference_def decodeNewString_def
  decode_def decode_method_def

lemma take_Suc_drop:
  assumes "take (Suc k) (drop p xs) = b # bs"
  shows "take 1 (drop p xs) = [b]" and "take k (drop (Suc p) xs) = bs"
proof -
  from assms obtain rest where r: "drop p xs = b # rest"
    by (cases "drop p xs") auto
  with assms have bs: "bs = take k rest" by simp
  from r show "take 1 (drop p xs) = [b]" by simp
  from r have "drop (Suc p) xs = rest"
    by (metis drop_Suc list.sel(3) tl_drop)
  with bs show "take k (drop (Suc p) xs) = bs" by simp
qed

lemma getBytes_Suc:
  assumes "getBytes s (Suc k) = Some (b # bs)"
  shows "getBytes s 1 = Some [b]"
    and "getBytes (s\<lparr>position := position s + 1\<rparr>) k = Some bs"
proof -
  from assms have p: "0 \<le> position s" "position s + int (Suc k) \<le> length_bs s"
    and t: "take (Suc k) (drop (nat (position s)) (bytes s)) = b # bs"
    by (auto simp: getBytes_def split: if_splits)
  from p take_Suc_drop(1)[OF t] show "getBytes s 1 = Some [b]"
    by (simp add: getBytes_def length_bs_def)
  have "nat (position s + 1) = Suc (nat (position s))" using p by simp
  with p take_Suc_drop(2)[OF t] show "getBytes (s\<lparr>position := position s + 1\<rparr>) k = Some bs"
    by (simp add: getBytes_def length_bs_def)
qed

lemma be_uint_single: "be_uint [b] = uint b"
  by (simp add: be_uint_def)

lemma readByte_Some:
  "getBytes s 1 = Some [b] \<Longrightarrow> readByte s = Ok (uint b) (s\<lparr>position := position s + 1\<rparr>)"
  by (simp add: readByte_def be_uint_single)

lemma onInput_readByte_Some:
  "getBytes (input d) 1 = Some [b] \<Longrightarrow>
   onInput readByte d = Ok (uint b) (d\<lparr>input := (input d)\<lparr>position := position (input d) + 1\<rparr>\<rparr>)"
  by (simp add: onInput_def readByte_Some)

text \<open>The names used in the example streams, as \<^verbatim>\<open>readUTF\<close> decodes them.\<close>

lemma string_a: "TextDecoder_decode [0x61] = ''a''"
  by code_simp

lemma string_C: "TextDecoder_decode [0x43] = ''C''"
  by code_simp

lemma string_x: "TextDecoder_decode [0x78] = ''x''"
  by code_simp

lemma string_A: "TextDecoder_decode [0x41] = ''A''"
  by code_simp

lemma string_Date_bom:
  "TextDecoder_decode [0xEF, 0xBB, 0xBF,
      0x6A, 0x61, 0x76, 0x61, 0x2E, 0x75, 0x74, 0x69, 0x6C, 0x2E, 0x44, 0x61, 0x74, 0x65] =
   ''java.util.Date''"
  by code_simp

lemma string_Date:
  "TextDecoder_decode [0x6A, 0x61, 0x76, 0x61, 0x2E, 0x75, 0x74, 0x69, 0x6C, 0x2E, 0x44, 0x61, 0x74, 0x65] =
     ''java.util.Date''"
  by code_simp

lemma magic_bytes:
  "be_uint [b0, b1] = STREAM_MAGIC \<longleftrightarrow> b0 = 0xAC \<and> b1 = 0xED"
proof
  assume a: "be_uint [b0, b1] = STREAM_MAGIC"
  have r0: "0 \<le> uint b0" "uint b0 < 256" "0 \<le> uint b1" "uint b1 < 256"
    using uint_lt2p[of b0] uint_lt2p[of b1] by simp_all
  from a have "uint b0 * 256 + uint b1 = 44269"
    by (simp add: be_uint_def STREAM_MAGIC_def)
  with r0 have "uint b0 = 172 \<and> uint b1 = 237" by arith
  then have "uint b0 = uint (0xAC :: byte) \<and> uint b1 = uint (0xED :: byte)" by simp
  then show "b0 = 0xAC \<and> b1 = 0xED"
    by (simp only: word_uint_eq_iff)
next
  assume "b0 = 0xAC \<and> b1 = 0xED"
  then show "be_uint [b0, b1] = STREAM_MAGIC"
    by (simp add: be_uint_def STREAM_MAGIC_def)
qed

lemma prop_classDesc_Some:
  "get_classDesc ref = Some cd \<Longrightarrow> prop_classDesc ref = Inr (Some cd)"
  by (cases ref) (auto simp: prop_classDesc_def)

text \<open>decodeNewObject once the class descriptor has been decoded.\<close>

lemma decodeNewObject_after_classDesc:
  assumes "decodeClassDesc n None d = Ok ref dc"
    and "get_classDesc ref = Some cd"
  shows "decodeNewObject (Suc n) d =
     bind (lift (allFieldsFromClassDesc cd)) (\<lambda>fields.
       bind
         (if classDescFlags (classDescInfo cd) AND SC_SERIALIZABLE \<noteq> 0 then
            if classDescFlags (classDescInfo cd) AND SC_WRITE_METHOD \<noteq> 0 then
              bind (decodeNewObject_fields n fields []) (\<lambda>classData.
              bind (decodeAnnotation n []) (\<lambda>objectAnnotation.
              bind (onInput readByte) (\<lambda>_.
                return (classData, objectAnnotation))))
            else
              bind (decodeNewObject_fields n fields []) (\<lambda>classData.
                return (classData, []))
          else if classDescFlags (classDescInfo cd) AND SC_EXTERNALIZABLE \<noteq> 0 then
            throw UnsupportExternalizable
          else return ([], []))
         (\<lambda>(classData, objectAnnotation).
            finishNewObject (handle dc) cd classData objectAnnotation))
       (dc\<lparr>handle := handle dc + 1\<rparr>)"
  using assms
  by (simp add: bind_def lift_def prop_classDesc_Some return_def nextHandle_def)

lemma be_uint_snoc: "be_uint (bs @ [b]) = be_uint bs * 256 + uint b"
  by (simp add: be_uint_def)

lemma be_uint_bounds: "0 \<le> be_uint bs \<and> be_uint bs < 256 ^ length bs"
proof (induction bs rule: rev_induct)
  case Nil
  show ?case by (simp add: be_uint_def)
next
  case (snoc b bs)
  have "0 \<le> uint b" "uint b < 256" using uint_lt2p [of b] by simp_all
  with snoc show ?case by (simp add: be_uint_snoc)
qed

lemma be_uint_inject:
  "length xs = length ys \<Longrightarrow> be_uint xs = be_uint ys \<Longrightarrow> xs = ys"
proof (induction xs arbitrary: ys rule: rev_induct)
  case Nil
  then show ?case by simp
next
  case (snoc x xs)
  from snoc.prems(1) obtain y ys' where ys: "ys = ys' @ [y]"
    by (cases ys rule: rev_cases) auto
  have bx: "0 \<le> uint x" "uint x < 256" using uint_lt2p [of x] by simp_all
  have by': "0 \<le> uint y" "uint y < 256" using uint_lt2p [of y] by simp_all
  from snoc.prems(2) have e: "be_uint xs * 256 + uint x = be_uint ys' * 256 + uint y"
    by (simp add: ys be_uint_snoc)
  have mx: "(be_uint xs * 256 + uint x) mod 256 = uint x" using bx by simp
  have my: "(be_uint ys' * 256 + uint y) mod 256 = uint y" using by' by simp
  from e mx my have xy: "uint x = uint y" by simp
  with e have v: "be_uint xs = be_uint ys'" by simp
  from xy have "x = y" by (simp only: word_uint_eq_iff)
  moreover from snoc.prems(1) have "length xs = length ys'" by (simp add: ys)
  then have "xs = ys'" using v by (rule snoc.IH)
  ultimately show ?case by (simp add: ys)
qed

lemma be_sint_mod: "be_sint bs mod 256 ^ length bs = be_uint bs"
proof -
  have b: "0 \<le> be_uint bs" "be_uint bs < 256 ^ length bs"
    using be_uint_bounds [of bs] by simp_all
  have p: "(2::int) ^ (8 * length bs) = 256 ^ length bs"
    by (simp add: power_mult)
  have "(be_uint bs - 256 ^ length bs) mod 256 ^ length bs = be_uint bs mod 256 ^ length bs"
    by (rule minus_mod_self2)
  with b show ?thesis
    by (simp add: be_sint_def Let_def p)
qed

lemma be_sint_bounds: "- (256 ^ length bs) \<le> 2 * be_sint bs \<and> 2 * be_sint bs < 256 ^ length bs"
proof -
  have b: "0 \<le> be_uint bs" "be_uint bs < 256 ^ length bs"
    using be_uint_bounds [of bs] by simp_all
  have p: "(2::int) ^ (8 * length bs) = 256 ^ length bs"
    by (simp add: power_mult)
  from b show ?thesis
    by (simp add: be_sint_def Let_def p)
qed

lemma be_sint_inject:
  assumes "length xs = length ys" and "be_sint xs = be_sint ys"
  shows "xs = ys"
proof -
  from assms have "be_sint xs mod 256 ^ length xs = be_sint ys mod 256 ^ length ys" by simp
  then have "be_uint xs = be_uint ys" by (simp only: be_sint_mod)
  with assms(1) show ?thesis by (rule be_uint_inject)
qed

lemma getBytes_length: "getBytes s k = Some bs \<Longrightarrow> length bs = k"
  by (auto simp: getBytes_def length_bs_def split: if_splits)

lemma allFields_linked:
  "allFieldsFromClassDesc p = Inr fs \<Longrightarrow> linked p cs \<Longrightarrow>
   allFieldsFromClassDesc (last (p # cs)) =
     Inr (fs @ concat (map (\<lambda>c. ClassDescInfo.fields (classDescInfo c)) cs))"
proof (induction cs arbitrary: p fs)
  case Nil
  then show ?case by simp
next
  case (Cons c cs)
  from Cons.prems have "allFieldsFromClassDesc c = Inr (fs @ ClassDescInfo.fields (classDescInfo c))"
    by (simp add: allFieldsFromClassDesc.simps [of c])
  moreover from Cons.prems have "linked c cs" by simp
  ultimately have "allFieldsFromClassDesc (last (c # cs)) =
     Inr ((fs @ ClassDescInfo.fields (classDescInfo c)) @ concat (map (\<lambda>c. ClassDescInfo.fields (classDescInfo c)) cs))"
    by (rule Cons.IH)
  then show ?case by simp
qed

subsection \<open>Handles: every function of the decoder allocates\<close>

lemma grows_refl: "grows d d"
  by (simp add: grows_def)

lemma grows_trans: "grows d d1 \<Longrightarrow> grows d1 d2 \<Longrightarrow> grows d d2"
  by (auto simp: grows_def)

lemma allocates_refl: "allocates d d"
  by (auto simp: allocates_def grows_def)

lemma allocates_grows: "allocates d d' \<Longrightarrow> grows d d'"
  by (simp add: allocates_def)

lemma allocates_trans: "allocates d d1 \<Longrightarrow> allocates d1 d2 \<Longrightarrow> allocates d d2"
  unfolding allocates_def grows_def filled_def
  by (smt (verit, best))

lemma allocates_but_grows: "allocates_but p d d' \<Longrightarrow> grows d d'"
  by (simp add: allocates_but_def)

lemma allocates_but_step: "allocates_but p d0 d \<Longrightarrow> allocates d d' \<Longrightarrow> allocates_but p d0 d'"
  unfolding allocates_but_def allocates_def grows_def filled_def
  by (smt (verit, best))

lemma allocates_but_throw: "allocates_but p d0 d \<Longrightarrow> grows d d' \<Longrightarrow> grows d0 d'"
  by (auto simp: allocates_but_def intro: grows_trans)

lemma bind_Ok:
  "bind m f d = Ok y d2 \<Longrightarrow> \<exists>x d1. m d = Ok x d1 \<and> f x d1 = Ok y d2"
  by (auto simp: bind_def split: outcome.splits)

lemma bind_Throw:
  "bind m f d = Throw e d2 \<Longrightarrow> m d = Throw e d2 \<or> (\<exists>x d1. m d = Ok x d1 \<and> f x d1 = Throw e d2)"
  by (auto simp: bind_def split: outcome.splits)

lemma allocatingI:
  "(\<And>d x d'. m d = Ok x d' \<Longrightarrow> allocates d d') \<Longrightarrow>
   (\<And>d e d'. m d = Throw e d' \<Longrightarrow> grows d d') \<Longrightarrow> allocating m"
  by (auto simp: allocating_def split: outcome.splits)

lemma allocating_Ok: "allocating m \<Longrightarrow> m d = Ok x d' \<Longrightarrow> allocates d d'"
  unfolding allocating_def by (drule spec [of _ d]) simp

lemma allocating_Throw: "allocating m \<Longrightarrow> m d = Throw e d' \<Longrightarrow> grows d d'"
  unfolding allocating_def by (drule spec [of _ d]) simp

lemma keepsI:
  "(\<And>d0 d x d'. allocates_but p d0 d \<Longrightarrow> m d = Ok x d' \<Longrightarrow> allocates_but p d0 d') \<Longrightarrow>
   (\<And>d0 d e d'. allocates_but p d0 d \<Longrightarrow> m d = Throw e d' \<Longrightarrow> grows d0 d') \<Longrightarrow> keeps p m"
  by (auto simp: keeps_def split: outcome.splits)

lemma keeps_Ok: "keeps p m \<Longrightarrow> allocates_but p d0 d \<Longrightarrow> m d = Ok x d' \<Longrightarrow> allocates_but p d0 d'"
  unfolding keeps_def by (drule spec [of _ d0], drule spec [of _ d]) simp

lemma keeps_Throw: "keeps p m \<Longrightarrow> allocates_but p d0 d \<Longrightarrow> m d = Throw e d' \<Longrightarrow> grows d0 d'"
  unfolding keeps_def by (drule spec [of _ d0], drule spec [of _ d]) simp

lemma fillsI:
  "(\<And>d0 d x d'. allocates_but p d0 d \<Longrightarrow> m d = Ok x d' \<Longrightarrow> allocates d0 d') \<Longrightarrow>
   (\<And>d0 d e d'. allocates_but p d0 d \<Longrightarrow> m d = Throw e d' \<Longrightarrow> grows d0 d') \<Longrightarrow> fills p m"
  by (auto simp: fills_def split: outcome.splits)

lemma fills_Ok: "fills p m \<Longrightarrow> allocates_but p d0 d \<Longrightarrow> m d = Ok x d' \<Longrightarrow> allocates d0 d'"
  unfolding fills_def by (drule spec [of _ d0], drule spec [of _ d]) simp

lemma fills_Throw: "fills p m \<Longrightarrow> allocates_but p d0 d \<Longrightarrow> m d = Throw e d' \<Longrightarrow> grows d0 d'"
  unfolding fills_def by (drule spec [of _ d0], drule spec [of _ d]) simp

lemma allocating_return: "allocating (return x)"
  by (rule allocatingI) (auto simp: return_def allocates_refl)

lemma allocating_throw: "allocating (throw e)"
  by (rule allocatingI) (auto simp: throw_def grows_refl)

lemma allocating_out_of_fuel: "allocating out_of_fuel"
  by (rule allocatingI) (auto simp: out_of_fuel_def)

lemma allocating_lift: "allocating (lift r)"
  by (cases r) (simp_all add: lift_def allocating_return allocating_throw)

lemma allocating_onInput: "allocating (onInput m)"
  by (rule allocatingI) (auto simp: onInput_def allocates_def grows_def split: outcome.splits)

lemma allocating_bind:
  assumes m: "allocating m" and f: "\<And>x. allocating (f x)"
  shows "allocating (bind m f)"
proof (rule allocatingI)
  fix d y d2
  assume "bind m f d = Ok y d2"
  then obtain x d1 where "m d = Ok x d1" "f x d1 = Ok y d2"
    by (blast dest: bind_Ok)
  then have "allocates d d1" "allocates d1 d2"
    using m f by (blast intro: allocating_Ok)+
  then show "allocates d d2" by (rule allocates_trans)
next
  fix d e d2
  assume "bind m f d = Throw e d2"
  then consider "m d = Throw e d2" | x d1 where "m d = Ok x d1" "f x d1 = Throw e d2"
    by (blast dest: bind_Throw)
  then show "grows d d2"
  proof cases
    case 1
    with m show ?thesis by (rule allocating_Throw)
  next
    case 2
    then have "allocates d d1" "grows d1 d2"
      using m f by (blast intro: allocating_Ok allocating_Throw)+
    then show ?thesis by (blast intro: grows_trans allocates_grows)
  qed
qed

lemma keeps_allocating:
  assumes "allocating m"
  shows "keeps p m"
proof (rule keepsI)
  fix d0 d x d'
  assume "allocates_but p d0 d" "m d = Ok x d'"
  with assms show "allocates_but p d0 d'"
    by (blast intro: allocates_but_step allocating_Ok)
next
  fix d0 d e d'
  assume "allocates_but p d0 d" "m d = Throw e d'"
  with assms show "grows d0 d'"
    by (blast intro: allocates_but_throw allocating_Throw)
qed

lemma fills_bind:
  assumes m: "keeps p m" and f: "\<And>x. fills p (f x)"
  shows "fills p (bind m f)"
proof (rule fillsI)
  fix d0 d y d2
  assume a: "allocates_but p d0 d" and "bind m f d = Ok y d2"
  then obtain x d1 where 1: "m d = Ok x d1" and 2: "f x d1 = Ok y d2"
    by (blast dest: bind_Ok)
  from m a 1 have "allocates_but p d0 d1" by (rule keeps_Ok)
  with f show "allocates d0 d2" using 2 by (rule fills_Ok)
next
  fix d0 d e d2
  assume a: "allocates_but p d0 d" and "bind m f d = Throw e d2"
  then consider "m d = Throw e d2" | x d1 where "m d = Ok x d1" "f x d1 = Throw e d2"
    by (blast dest: bind_Throw)
  then show "grows d0 d2"
  proof cases
    case 1
    with m a show ?thesis by (rule keeps_Throw)
  next
    case 2
    from m a 2(1) have "allocates_but p d0 d1" by (rule keeps_Ok)
    with f show ?thesis using 2(2) by (rule fills_Throw)
  qed
qed

lemma fills_throw: "fills p (throw e)"
  by (rule fillsI) (auto simp: throw_def allocates_but_grows)

lemma fills_out_of_fuel: "fills p out_of_fuel"
  by (rule fillsI) (auto simp: out_of_fuel_def)

lemma fills_store:
  assumes "handle_of r = Some p"
  shows "fills p (store p r)"
proof (rule fillsI)
  fix d0 d x d'
  assume a: "allocates_but p d0 d" and "store p r d = Ok x d'"
  then have d': "d' = d\<lparr>objectRegistry := (objectRegistry d)(p \<mapsto> r)\<rparr>"
    by (auto simp: store_def)
  from a assms show "allocates d0 d'"
    unfolding d' allocates_but_def allocates_def grows_def filled_def
    by auto
next
  fix d0 d e d'
  assume "store p r d = Throw e d'"
  then show "grows d0 d'" by (simp add: store_def)
qed

lemma allocating_nextHandle:
  assumes f: "\<And>h. fills h (f h)"
  shows "allocating (bind nextHandle f)"
proof -
  have start: "allocates_but (handle d) d (d\<lparr>handle := handle d + 1\<rparr>)" for d :: Decoder
    by (auto simp: allocates_but_def grows_def)
  show ?thesis
  proof (rule allocatingI)
    fix d y d2
    assume "bind nextHandle f d = Ok y d2"
    then have "f (handle d) (d\<lparr>handle := handle d + 1\<rparr>) = Ok y d2"
      by (simp add: bind_def nextHandle_def)
    with f start show "allocates d d2" by (rule fills_Ok)
  next
    fix d e d2
    assume "bind nextHandle f d = Throw e d2"
    then have "f (handle d) (d\<lparr>handle := handle d + 1\<rparr>) = Throw e d2"
      by (simp add: bind_def nextHandle_def)
    with f start show "grows d d2" by (rule fills_Throw)
  qed
qed


lemma allocating_if:
  "(c \<Longrightarrow> allocating a) \<Longrightarrow> (\<not> c \<Longrightarrow> allocating b) \<Longrightarrow> allocating (if c then a else b)"
  by simp

lemma allocating_case_option:
  "allocating a \<Longrightarrow> (\<And>x. allocating (b x)) \<Longrightarrow> allocating (case opt of None \<Rightarrow> a | Some x \<Rightarrow> b x)"
  by (cases opt) simp_all

lemma allocating_case_list:
  "allocating a \<Longrightarrow> (\<And>x xs. allocating (b x xs)) \<Longrightarrow>
   allocating (case l of [] \<Rightarrow> a | x # xs \<Rightarrow> b x xs)"
  by (cases l) simp_all

lemma allocating_case_FieldDesc:
  "(\<And>t n. allocating (a t n)) \<Longrightarrow> (\<And>n c. allocating (b n c)) \<Longrightarrow> (\<And>n c. allocating (c' n c)) \<Longrightarrow>
   allocating (case fd of PrimitiveFieldDesc t n \<Rightarrow> a t n | ArrayFieldDesc n c \<Rightarrow> b n c
               | ObjectFieldDesc n c \<Rightarrow> c' n c)"
  by (cases fd) simp_all

lemma fills_if:
  "(c \<Longrightarrow> fills p a) \<Longrightarrow> (\<not> c \<Longrightarrow> fills p b) \<Longrightarrow> fills p (if c then a else b)"
  by simp

lemma fills_case_option:
  "fills p a \<Longrightarrow> (\<And>x. fills p (b x)) \<Longrightarrow> fills p (case opt of None \<Rightarrow> a | Some x \<Rightarrow> b x)"
  by (cases opt) simp_all

lemma fills_case_prod:
  "(\<And>a b. fills p (g a b)) \<Longrightarrow> fills p (case x of (a, b) \<Rightarrow> g a b)"
  by (cases x) simp

lemma fills_finishNewObject: "fills h (finishNewObject h cd classData ann)"
  by (simp add: finishNewObject_def fills_throw fills_store split: list.split jsvalue.split)

lemma allocating_decodeReference: "allocating decodeReference"
  unfolding decodeReference_def
  by (rule allocating_bind [OF allocating_onInput]) (rule allocatingI, auto simp: allocates_refl)

lemma allocating_decodeNewString: "allocating (decodeNewString longString)"
  unfolding decodeNewString_def
  by (intro allocating_nextHandle fills_if fills_throw fills_bind keeps_allocating
      allocating_onInput fills_store) simp

lemma allocating_decodePrimitiveValue: "allocating (decodePrimitiveValue typecode)"
  unfolding decodePrimitiveValue_def
  by (intro allocating_if allocating_bind allocating_onInput allocating_return allocating_throw)

lemmas allocating_rules =
  allocating_if allocating_case_option allocating_case_list allocating_case_FieldDesc
  allocating_return allocating_throw allocating_out_of_fuel allocating_lift allocating_onInput
  allocating_decodeReference allocating_decodeNewString allocating_decodePrimitiveValue
  fills_if fills_case_option fills_case_prod fills_throw fills_finishNewObject fills_bind
  keeps_allocating

lemma decode_allocating:
  "allocating (decodeContent n)
   \<and> allocating (decodeObject n)
   \<and> allocating (decodeNewObject n)
   \<and> (\<forall>fs cd. allocating (decodeNewObject_fields n fs cd))
   \<and> (\<forall>ann. allocating (decodeAnnotation n ann))
   \<and> allocating (decodeNewArray n)
   \<and> (\<forall>i c vs. allocating (decodeNewArray_values n i c vs))
   \<and> (\<forall>fd. allocating (decodeValues n fd))
   \<and> (\<forall>tc. allocating (decodeClassDesc n tc))
   \<and> allocating (decodeClassDescInfo n)
   \<and> (\<forall>i c fs. allocating (decodeClassDescInfo_fields n i c fs))"
proof (induction n)
  case 0
  show ?case by (simp add: allocating_out_of_fuel)
next
  case (Suc n)
  then have IH:
    "allocating (decodeContent n)"
    "allocating (decodeObject n)"
    "allocating (decodeNewObject n)"
    "\<And>fs cd. allocating (decodeNewObject_fields n fs cd)"
    "\<And>ann. allocating (decodeAnnotation n ann)"
    "allocating (decodeNewArray n)"
    "\<And>i c vs. allocating (decodeNewArray_values n i c vs)"
    "\<And>fd. allocating (decodeValues n fd)"
    "\<And>tc. allocating (decodeClassDesc n tc)"
    "allocating (decodeClassDescInfo n)"
    "\<And>i c fs. allocating (decodeClassDescInfo_fields n i c fs)"
    by simp_all
  have 1: "allocating (decodeContent (Suc n))"
    unfolding decodeContent.simps
    by (rule allocating_bind allocating_rules IH)+
  have 2: "allocating (decodeObject (Suc n))"
    unfolding decodeObject.simps
    by ((rule allocating_nextHandle | rule allocating_bind allocating_rules IH)+)
       (rule allocatingI, auto simp: grows_refl)
  have 3: "allocating (decodeNewObject (Suc n))"
    unfolding decodeNewObject.simps
    by (rule allocating_nextHandle | rule allocating_bind allocating_rules IH)+
  have 4: "allocating (decodeNewObject_fields (Suc n) fs cd)" for fs cd
    unfolding decodeNewObject_fields.simps
    by (rule allocating_bind allocating_rules IH)+
  have 5: "allocating (decodeAnnotation (Suc n) ann)" for ann
    unfolding decodeAnnotation.simps
    by (rule allocating_bind allocating_rules IH)+
  have 6: "allocating (decodeNewArray (Suc n))"
    unfolding decodeNewArray.simps
    by (rule allocating_nextHandle | rule allocating_bind allocating_rules IH fills_store | simp)+
  have 7: "allocating (decodeNewArray_values (Suc n) i c vs)" for i c vs
    unfolding decodeNewArray_values.simps
    by (rule allocating_bind allocating_rules IH)+
  have 8: "allocating (decodeValues (Suc n) fd)" for fd
    unfolding decodeValues.simps
    by (rule allocating_bind allocating_rules IH)+
  have 9: "allocating (decodeClassDesc (Suc n) tc)" for tc
    unfolding decodeClassDesc.simps
    by (rule allocating_nextHandle | rule allocating_bind allocating_rules IH fills_store | simp)+
  have 10: "allocating (decodeClassDescInfo (Suc n))"
    unfolding decodeClassDescInfo.simps
    by (rule allocating_bind allocating_rules IH)+
  have 11: "allocating (decodeClassDescInfo_fields (Suc n) i c fs)" for i c fs
    unfolding decodeClassDescInfo_fields.simps
    by (rule allocating_bind allocating_rules IH)+
  from 1 2 3 4 5 6 7 8 9 10 11 show ?case by blast
qed

lemma allocating_decode_contents: "allocating (decode_contents n contents)"
proof (induction n arbitrary: contents)
  case 0
  show ?case by (simp add: allocating_out_of_fuel)
next
  case (Suc n)
  have c: "allocating (decodeContent n)" using decode_allocating [of n] by simp
  have "decode_contents (Suc n) contents =
      (\<lambda>d. if eof (input d) then return contents d
           else bind (decodeContent n) (\<lambda>content.
                  decode_contents n
                    (contents @ [if isArrayBuffer content then content
                                 else simplifyReference content])) d)"
    by (rule ext) (simp add: return_def)
  moreover have "allocating (bind (decodeContent n) (\<lambda>content.
                  decode_contents n
                    (contents @ [if isArrayBuffer content then content
                                 else simplifyReference content])))"
    by (rule allocating_bind [OF c]) (rule Suc.IH)
  ultimately show ?case
    using allocating_return [of contents]
    by (simp add: allocating_def)
qed

lemma allocating_decode_method: "allocating (decode_method fuel)"
  unfolding decode_method_def
  by (rule allocating_bind allocating_rules allocating_decode_contents)+

lemma refines_refl: "refines m m"
  by (simp add: refines_def)

lemma refines_trans: "refines a b \<Longrightarrow> refines b c \<Longrightarrow> refines a c"
  by (auto simp: refines_def)

lemma refines_out_of_fuel: "refines out_of_fuel m"
  by (simp add: refines_def out_of_fuel_def)

lemma refines_bind:
  assumes "refines m m'" and "\<And>x. refines (f x) (f' x)"
  shows "refines (bind m f) (bind m' f')"
  unfolding refines_def
proof (intro allI impI)
  fix s
  assume a: "bind m f s \<noteq> OutOfFuel"
  then have "m s \<noteq> OutOfFuel" by (auto simp: bind_def)
  with assms(1) have m: "m' s = m s" by (simp add: refines_def)
  show "bind m' f' s = bind m f s"
  proof (cases "m s")
    case (Ok x s1)
    with a have "f x s1 \<noteq> OutOfFuel" by (simp add: bind_def)
    with assms(2) have "f' x s1 = f x s1" by (simp add: refines_def)
    with Ok m show ?thesis by (simp add: bind_def)
  next
    case (Throw e s1)
    with m show ?thesis by (simp add: bind_def)
  next
    case OutOfFuel
    with \<open>m s \<noteq> OutOfFuel\<close> show ?thesis by simp
  qed
qed

lemma refines_if:
  "(c \<Longrightarrow> refines a a') \<Longrightarrow> (\<not> c \<Longrightarrow> refines b b') \<Longrightarrow>
   refines (if c then a else b) (if c then a' else b')"
  by simp

lemma refines_case_option:
  "refines a a' \<Longrightarrow> (\<And>x. refines (b x) (b' x)) \<Longrightarrow>
   refines (case opt of None \<Rightarrow> a | Some x \<Rightarrow> b x) (case opt of None \<Rightarrow> a' | Some x \<Rightarrow> b' x)"
  by (cases opt) simp_all

lemma refines_case_list:
  "refines a a' \<Longrightarrow> (\<And>x xs. refines (b x xs) (b' x xs)) \<Longrightarrow>
   refines (case l of [] \<Rightarrow> a | x # xs \<Rightarrow> b x xs) (case l of [] \<Rightarrow> a' | x # xs \<Rightarrow> b' x xs)"
  by (cases l) simp_all

lemma refines_case_FieldDesc:
  "(\<And>t n. refines (a t n) (a' t n)) \<Longrightarrow> (\<And>n c. refines (b n c) (b' n c)) \<Longrightarrow>
   (\<And>n c. refines (e n c) (e' n c)) \<Longrightarrow>
   refines (case fd of PrimitiveFieldDesc t n \<Rightarrow> a t n | ArrayFieldDesc n c \<Rightarrow> b n c
               | ObjectFieldDesc n c \<Rightarrow> e n c)
           (case fd of PrimitiveFieldDesc t n \<Rightarrow> a' t n | ArrayFieldDesc n c \<Rightarrow> b' n c
               | ObjectFieldDesc n c \<Rightarrow> e' n c)"
  by (cases fd) simp_all

lemmas refines_rules =
  refines_refl refines_bind refines_if refines_case_option refines_case_list
  refines_case_FieldDesc

text \<open>One more level of calls, when every callee has been given more fuel.\<close>

lemma refines_step:
  assumes H:
    "refines (decodeContent n) (decodeContent m)"
    "refines (decodeObject n) (decodeObject m)"
    "refines (decodeNewObject n) (decodeNewObject m)"
    "\<And>fs cd. refines (decodeNewObject_fields n fs cd) (decodeNewObject_fields m fs cd)"
    "\<And>ann. refines (decodeAnnotation n ann) (decodeAnnotation m ann)"
    "refines (decodeNewArray n) (decodeNewArray m)"
    "\<And>i c vs. refines (decodeNewArray_values n i c vs) (decodeNewArray_values m i c vs)"
    "\<And>fd. refines (decodeValues n fd) (decodeValues m fd)"
    "\<And>tc. refines (decodeClassDesc n tc) (decodeClassDesc m tc)"
    "refines (decodeClassDescInfo n) (decodeClassDescInfo m)"
    "\<And>i c fs. refines (decodeClassDescInfo_fields n i c fs) (decodeClassDescInfo_fields m i c fs)"
  shows "refines (decodeContent (Suc n)) (decodeContent (Suc m))
   \<and> refines (decodeObject (Suc n)) (decodeObject (Suc m))
   \<and> refines (decodeNewObject (Suc n)) (decodeNewObject (Suc m))
   \<and> (\<forall>fs cd. refines (decodeNewObject_fields (Suc n) fs cd) (decodeNewObject_fields (Suc m) fs cd))
   \<and> (\<forall>ann. refines (decodeAnnotation (Suc n) ann) (decodeAnnotation (Suc m) ann))
   \<and> refines (decodeNewArray (Suc n)) (decodeNewArray (Suc m))
   \<and> (\<forall>i c vs. refines (decodeNewArray_values (Suc n) i c vs) (decodeNewArray_values (Suc m) i c vs))
   \<and> (\<forall>fd. refines (decodeValues (Suc n) fd) (decodeValues (Suc m) fd))
   \<and> (\<forall>tc. refines (decodeClassDesc (Suc n) tc) (decodeClassDesc (Suc m) tc))
   \<and> refines (decodeClassDescInfo (Suc n)) (decodeClassDescInfo (Suc m))
   \<and> (\<forall>i c fs. refines (decodeClassDescInfo_fields (Suc n) i c fs)
         (decodeClassDescInfo_fields (Suc m) i c fs))"
proof -
  have 1: "refines (decodeContent (Suc n)) (decodeContent (Suc m))"
    unfolding decodeContent.simps by (rule refines_rules H)+
  have 2: "refines (decodeObject (Suc n)) (decodeObject (Suc m))"
    unfolding decodeObject.simps by (rule refines_rules H)+
  have 3: "refines (decodeNewObject (Suc n)) (decodeNewObject (Suc m))"
    unfolding decodeNewObject.simps by (rule refines_rules H)+
  have 4: "refines (decodeNewObject_fields (Suc n) fs cd) (decodeNewObject_fields (Suc m) fs cd)" for fs cd
    unfolding decodeNewObject_fields.simps by (rule refines_rules H)+
  have 5: "refines (decodeAnnotation (Suc n) ann) (decodeAnnotation (Suc m) ann)" for ann
    unfolding decodeAnnotation.simps by (rule refines_rules H)+
  have 6: "refines (decodeNewArray (Suc n)) (decodeNewArray (Suc m))"
    unfolding decodeNewArray.simps by (rule refines_rules H)+
  have 7: "refines (decodeNewArray_values (Suc n) i c vs) (decodeNewArray_values (Suc m) i c vs)" for i c vs
    unfolding decodeNewArray_values.simps by (rule refines_rules H)+
  have 8: "refines (decodeValues (Suc n) fd) (decodeValues (Suc m) fd)" for fd
    unfolding decodeValues.simps by (rule refines_rules H)+
  have 9: "refines (decodeClassDesc (Suc n) tc) (decodeClassDesc (Suc m) tc)" for tc
    unfolding decodeClassDesc.simps by (rule refines_rules H)+
  have 10: "refines (decodeClassDescInfo (Suc n)) (decodeClassDescInfo (Suc m))"
    unfolding decodeClassDescInfo.simps by (rule refines_rules H)+
  have 11: "refines (decodeClassDescInfo_fields (Suc n) i c fs) (decodeClassDescInfo_fields (Suc m) i c fs)" for i c fs
    unfolding decodeClassDescInfo_fields.simps by (rule refines_rules H)+
  from 1 2 3 4 5 6 7 8 9 10 11 show ?thesis by blast
qed

lemma refines_Suc:
  "refines (decodeContent n) (decodeContent (Suc n))
   \<and> refines (decodeObject n) (decodeObject (Suc n))
   \<and> refines (decodeNewObject n) (decodeNewObject (Suc n))
   \<and> (\<forall>fs cd. refines (decodeNewObject_fields n fs cd) (decodeNewObject_fields (Suc n) fs cd))
   \<and> (\<forall>ann. refines (decodeAnnotation n ann) (decodeAnnotation (Suc n) ann))
   \<and> refines (decodeNewArray n) (decodeNewArray (Suc n))
   \<and> (\<forall>i c vs. refines (decodeNewArray_values n i c vs) (decodeNewArray_values (Suc n) i c vs))
   \<and> (\<forall>fd. refines (decodeValues n fd) (decodeValues (Suc n) fd))
   \<and> (\<forall>tc. refines (decodeClassDesc n tc) (decodeClassDesc (Suc n) tc))
   \<and> refines (decodeClassDescInfo n) (decodeClassDescInfo (Suc n))
   \<and> (\<forall>i c fs. refines (decodeClassDescInfo_fields n i c fs)
         (decodeClassDescInfo_fields (Suc n) i c fs))"
proof (induction n)
  case 0
  show ?case by (simp add: refines_out_of_fuel del: decodeContent.simps(2) decodeObject.simps(2)
      decodeNewObject.simps(2) decodeNewObject_fields.simps(2) decodeAnnotation.simps(2)
      decodeNewArray.simps(2) decodeNewArray_values.simps(2) decodeValues.simps(2)
      decodeClassDesc.simps(2) decodeClassDescInfo.simps(2) decodeClassDescInfo_fields.simps(2))
next
  case (Suc n)
  then show ?case by (intro refines_step) simp_all
qed

lemma refines_decodeContent_Suc: "refines (decodeContent n) (decodeContent (Suc n))"
  using refines_Suc [of n] by simp

lemma refines_decode_contents_Suc:
  "refines (decode_contents n contents) (decode_contents (Suc n) contents)"
proof (induction n arbitrary: contents)
  case 0
  show ?case by (simp add: refines_out_of_fuel del: decode_contents.simps(2))
next
  case (Suc n)
  have "refines (\<lambda>d. if eof (input d) then Ok contents d
          else bind (decodeContent n) (\<lambda>content.
                 decode_contents n
                   (contents @ [if isArrayBuffer content then content
                                else simplifyReference content])) d)
        (\<lambda>d. if eof (input d) then Ok contents d
          else bind (decodeContent (Suc n)) (\<lambda>content.
                 decode_contents (Suc n)
                   (contents @ [if isArrayBuffer content then content
                                else simplifyReference content])) d)"
    unfolding refines_def
  proof (intro allI impI)
    fix d
    assume a: "(if eof (input d) then Ok contents d
          else bind (decodeContent n) (\<lambda>content.
                 decode_contents n
                   (contents @ [if isArrayBuffer content then content
                                else simplifyReference content])) d) \<noteq> OutOfFuel"
    have r: "refines (bind (decodeContent n) (\<lambda>content.
                 decode_contents n
                   (contents @ [if isArrayBuffer content then content
                                else simplifyReference content])))
              (bind (decodeContent (Suc n)) (\<lambda>content.
                 decode_contents (Suc n)
                   (contents @ [if isArrayBuffer content then content
                                else simplifyReference content])))"
      by (rule refines_bind [OF refines_decodeContent_Suc]) (rule Suc.IH)
    show "(if eof (input d) then Ok contents d
          else bind (decodeContent (Suc n)) (\<lambda>content.
                 decode_contents (Suc n)
                   (contents @ [if isArrayBuffer content then content
                                else simplifyReference content])) d) =
        (if eof (input d) then Ok contents d
          else bind (decodeContent n) (\<lambda>content.
                 decode_contents n
                   (contents @ [if isArrayBuffer content then content
                                else simplifyReference content])) d)"
    proof (cases "eof (input d)")
      case True
      then show ?thesis by simp
    next
      case False
      with a r show ?thesis by (simp add: refines_def)
    qed
  qed
  then show ?case
    by (simp only: decode_contents.simps(2) [of "Suc n"] decode_contents.simps(2) [of n])
qed

lemma refines_decode_Suc: "refines (decode n) (decode (Suc n))"
proof -
  have "refines (decode_method n) (decode_method (Suc n))"
    unfolding decode_method_def
    by (rule refines_rules refines_decode_contents_Suc)+
  then show ?thesis
    by (simp add: refines_def decode_def)
qed

lemma refines_decode_add: "refines (decode n) (decode (n + k))"
proof (induction k)
  case 0
  show ?case by (simp add: refines_refl)
next
  case (Suc k)
  from Suc refines_decode_Suc [of "n + k"] show ?case
    by (auto intro: refines_trans)
qed

lemma decode_fuel_independent:
  assumes "decode n i \<noteq> OutOfFuel" and "decode m i \<noteq> OutOfFuel"
  shows "decode m i = decode n i"
proof (cases "n \<le> m")
  case True
  then obtain k where "m = n + k" by (auto simp: le_iff_add)
  with refines_decode_add [of n k] assms(1) show ?thesis by (simp add: refines_def)
next
  case False
  then obtain k where "n = m + k" by (metis le_iff_add nat_le_linear)
  with refines_decode_add [of m k] assms(2) show ?thesis by (simp add: refines_def)
qed

subsection \<open>The dispatch on the tag, and what a throw does to the whole decode\<close>











subsection \<open>The record returned by each allocating function\<close>

lemma onInput_Ok:
  "onInput m d = Ok x d' \<Longrightarrow> handle d' = handle d \<and> objectRegistry d' = objectRegistry d"
  by (auto simp: onInput_def split: outcome.splits)

lemma decodeReference_Ok:
  "decodeReference d = Ok x d' \<Longrightarrow> handle d' = handle d \<and> objectRegistry d' = objectRegistry d"
  by (auto simp: decodeReference_def bind_def onInput_def split: outcome.splits)

lemma decodeNewString_Ok:
  assumes "decodeNewString False d = Ok r d'"
  shows "\<exists>s. r = StringReference (handle d) s \<and> handle d' = handle d + 1
             \<and> objectRegistry d' (handle d) = Some r"
  using assms
  by (auto simp: decodeNewString_def bind_def nextHandle_def onInput_def store_def
      split: outcome.splits)

lemma decodeClassDesc_Ok:
  assumes r: "decodeClassDesc (Suc n) tcArg d = Ok r d'" and lt: "handle d < handle d'"
  shows "\<exists>cd. r = ClassDescReference (handle d) cd \<and> objectRegistry d' (handle d) = Some r"
proof -
  from r obtain tc d0 where
    t: "(case tcArg of None \<Rightarrow> onInput readByte | Some tc \<Rightarrow> return tc) d = Ok tc d0"
    and body: "(if tc = TC_CLASSDESC then
         bind (onInput readUTF) (\<lambda>name.
         bind (onInput readULong) (\<lambda>uid.
         bind nextHandle (\<lambda>h.
         bind (decodeClassDescInfo n) (\<lambda>info.
           store h (ClassDescReference h (ClassDesc name uid info))))))
       else if tc = TC_PROXYCLASSDESC then throw NotImplemented
       else if tc = TC_NULL then return VNull
       else if tc = TC_REFERENCE then decodeReference
       else throw (UnknownTc tc)) d0 = Ok r d'"
    by (auto dest!: bind_Ok)
  from t have h0: "handle d0 = handle d"
    by (cases tcArg) (auto simp: return_def dest: onInput_Ok)
  show ?thesis
  proof (cases "tc = TC_CLASSDESC")
    case True
    with body obtain name d1 uid d2 info d4 where
      u1: "onInput readUTF d0 = Ok name d1" and u2: "onInput readULong d1 = Ok uid d2"
      and i: "decodeClassDescInfo n (d2\<lparr>handle := handle d2 + 1\<rparr>) = Ok info d4"
      and s: "store (handle d2) (ClassDescReference (handle d2) (ClassDesc name uid info)) d4 = Ok r d'"
      by (auto dest!: bind_Ok simp: nextHandle_def)
    have "handle d2 = handle d" using onInput_Ok [OF u1] onInput_Ok [OF u2] h0 by simp
    with s show ?thesis by (auto simp: store_def)
  next
    case False
    with body have "handle d' = handle d0"
      by (auto simp: throw_def return_def tc_defs dest: decodeReference_Ok split: if_splits)
    with h0 lt show ?thesis by simp
  qed
qed

lemma decodeClassDesc_new_Ok:
  assumes r: "decodeClassDesc (Suc n) tcArg d = Ok r d'"
    and new: "tcArg = Some TC_CLASSDESC
              \<or> tcArg = None \<and> getBytes (input d) 1 = Some [tag] \<and> uint tag = TC_CLASSDESC"
  shows "\<exists>cd. r = ClassDescReference (handle d) cd \<and> handle d < handle d'
              \<and> objectRegistry d' (handle d) = Some r"
proof -
  from new obtain d0 where
    t: "(case tcArg of None \<Rightarrow> onInput readByte | Some tc \<Rightarrow> return tc) d = Ok TC_CLASSDESC d0"
    by (auto simp: return_def onInput_readByte_Some)
  from t have h0: "handle d0 = handle d"
    by (cases tcArg) (auto simp: return_def dest: onInput_Ok)
  from r t have body: "bind (onInput readUTF) (\<lambda>name.
         bind (onInput readULong) (\<lambda>uid.
         bind nextHandle (\<lambda>h.
         bind (decodeClassDescInfo n) (\<lambda>info.
           store h (ClassDescReference h (ClassDesc name uid info)))))) d0 = Ok r d'"
    by (simp add: bind_def)
  then obtain name d1 uid d2 info d4 where
    u1: "onInput readUTF d0 = Ok name d1" and u2: "onInput readULong d1 = Ok uid d2"
    and i: "decodeClassDescInfo n (d2\<lparr>handle := handle d2 + 1\<rparr>) = Ok info d4"
    and s: "store (handle d2) (ClassDescReference (handle d2) (ClassDesc name uid info)) d4 = Ok r d'"
    by (auto dest!: bind_Ok simp: nextHandle_def)
  have h2: "handle d2 = handle d" using onInput_Ok [OF u1] onInput_Ok [OF u2] h0 by simp
  have "allocating (decodeClassDescInfo n)"
    using decode_allocating [of n] by simp
  then have "allocates (d2\<lparr>handle := handle d2 + 1\<rparr>) d4" using i by (rule allocating_Ok)
  then have "handle d2 + 1 \<le> handle d4"
    by (simp add: allocates_def grows_def)
  with h2 s show ?thesis by (auto simp: store_def)
qed

lemma finishNewObject_Ok:
  assumes "finishNewObject h cd classData ann d = Ok r d'"
  shows "\<exists>obj. r = ObjectReference h cd obj ann \<and> handle d' = handle d
             \<and> objectRegistry d' h = Some r"
  using assms
  by (auto simp: finishNewObject_def store_def throw_def split: if_splits list.splits jsvalue.splits)

lemma decodeNewObject_Ok:
  assumes r: "decodeNewObject (Suc n) d = Ok r d'"
  shows "\<exists>ref dc cd obj ann. decodeClassDesc n None d = Ok ref dc
           \<and> r = ObjectReference (handle dc) cd obj ann
           \<and> handle dc < handle d' \<and> objectRegistry d' (handle dc) = Some r"
proof -
  from r obtain ref dc cdo where
    c: "decodeClassDesc n None d = Ok ref dc"
    and rest: "(case cdo of
         None \<Rightarrow> throw TypeError
       | Some classDesc \<Rightarrow>
           bind (lift (allFieldsFromClassDesc classDesc)) (\<lambda>fields.
           bind
             (if classDescFlags (classDescInfo classDesc) AND SC_SERIALIZABLE \<noteq> 0 then
                if classDescFlags (classDescInfo classDesc) AND SC_WRITE_METHOD \<noteq> 0 then
                  bind (decodeNewObject_fields n fields []) (\<lambda>classData.
                  bind (decodeAnnotation n []) (\<lambda>objectAnnotation.
                  bind (onInput readByte) (\<lambda>_.
                    return (classData, objectAnnotation))))
                else
                  bind (decodeNewObject_fields n fields []) (\<lambda>classData.
                    return (classData, []))
              else if classDescFlags (classDescInfo classDesc) AND SC_EXTERNALIZABLE \<noteq> 0 then
                throw UnsupportExternalizable
              else return ([], []))
             (\<lambda>(classData, objectAnnotation).
                finishNewObject (handle dc) classDesc classData objectAnnotation)))
        (dc\<lparr>handle := handle dc + 1\<rparr>) = Ok r d'"
    by (auto dest!: bind_Ok simp: nextHandle_def lift_def return_def throw_def split: sum.splits)
  from rest obtain cd where cdo: "cdo = Some cd"
    by (cases cdo) (auto simp: throw_def)
  let ?data = "\<lambda>fields. (if classDescFlags (classDescInfo cd) AND SC_SERIALIZABLE \<noteq> 0 then
                if classDescFlags (classDescInfo cd) AND SC_WRITE_METHOD \<noteq> 0 then
                  bind (decodeNewObject_fields n fields []) (\<lambda>classData.
                  bind (decodeAnnotation n []) (\<lambda>objectAnnotation.
                  bind (onInput readByte) (\<lambda>_.
                    return (classData, objectAnnotation))))
                else
                  bind (decodeNewObject_fields n fields []) (\<lambda>classData.
                    return (classData, []))
              else if classDescFlags (classDescInfo cd) AND SC_EXTERNALIZABLE \<noteq> 0 then
                throw UnsupportExternalizable
              else return ([], []))"
  from rest cdo obtain fields classData ann d3 where
    data: "?data fields (dc\<lparr>handle := handle dc + 1\<rparr>) = Ok (classData, ann) d3"
    and fin: "finishNewObject (handle dc) cd classData ann d3 = Ok r d'"
    by (auto dest!: bind_Ok simp: lift_def return_def throw_def split: sum.splits)
  have IH: "\<And>fs cd. allocating (decodeNewObject_fields n fs cd)"
    "\<And>ann. allocating (decodeAnnotation n ann)"
    using decode_allocating [of n] by simp_all
  have "allocating (?data fields)"
    by (rule allocating_bind allocating_rules IH)+
  then have "allocates (dc\<lparr>handle := handle dc + 1\<rparr>) d3"
    using data by (rule allocating_Ok)
  then have "handle dc + 1 \<le> handle d3"
    by (simp add: allocates_def grows_def)
  with finishNewObject_Ok [OF fin] c show ?thesis
    by auto
qed

lemma decodeNewArray_Ok:
  assumes r: "decodeNewArray (Suc n) d = Ok r d'"
  shows "\<exists>ref dc cdo vs. decodeClassDesc n None d = Ok ref dc
           \<and> r = ArrayReference (handle dc) cdo vs
           \<and> handle dc < handle d' \<and> objectRegistry d' (handle dc) = Some r"
proof -
  from r obtain ref dc cdo count d2 vs d3 where
    c: "decodeClassDesc n None d = Ok ref dc"
    and ri: "onInput readInt (dc\<lparr>handle := handle dc + 1\<rparr>) = Ok count d2"
    and v: "decodeNewArray_values n 0 count [] d2 = Ok vs d3"
    and s: "store (handle dc) (ArrayReference (handle dc) cdo vs) d3 = Ok r d'"
    by (auto dest!: bind_Ok simp: nextHandle_def lift_def return_def throw_def split: sum.splits)
  have h2: "handle d2 = handle dc + 1"
    using onInput_Ok [OF ri] by simp
  have "allocating (decodeNewArray_values n 0 count [])"
    using decode_allocating [of n] by simp
  then have "allocates d2 d3" using v by (rule allocating_Ok)
  then have "handle d2 \<le> handle d3"
    by (simp add: allocates_def grows_def)
  with h2 c s show ?thesis
    by (auto simp: store_def)
qed

subsection \<open>Long values\<close>

lemma list8:
  assumes "length (bs :: 'a list) = 8"
  shows "\<exists>b0 b1 b2 b3 b4 b5 b6 b7. bs = [b0, b1, b2, b3, b4, b5, b6, b7]"
proof -
  from assms have "length bs = Suc (Suc (Suc (Suc (Suc (Suc (Suc (Suc 0)))))))" by simp
  then show ?thesis by (auto simp: length_Suc_conv)
qed

lemma get_prop_assign: "get_prop (assign obj k v) k = v"
  by (induction obj) (auto simp: get_prop_def)

lemma long_field_value:
  assumes "getBytes (input d) 8 = Some bs"
  shows "decodePrimitiveValue TYPECODE_LONG d =
           Ok (VBigInt (be_sint bs)) (d\<lparr>input := (input d)\<lparr>position := position (input d) + 8\<rparr>\<rparr>)"
  using assms by (simp add: decodePrimitiveValue_def typecode_defs onInput_def readLong_def)

lemma long_field_step:
  assumes "getBytes (input d) 8 = Some bs"
  shows "decodeNewObject_fields (Suc (Suc n)) (PrimitiveFieldDesc TYPECODE_LONG name # rest) classData d =
           decodeNewObject_fields (Suc n) rest (assign classData name (VBigInt (be_sint bs)))
             (d\<lparr>input := (input d)\<lparr>position := position (input d) + 8\<rparr>\<rparr>)"
proof -
  have "decodeNewObject_fields (Suc (Suc n)) (PrimitiveFieldDesc TYPECODE_LONG name # rest) classData d =
      bind (decodePrimitiveValue TYPECODE_LONG) (\<lambda>v.
        decodeNewObject_fields (Suc n) rest (assign classData name v)) d"
    by (simp del: decodeNewObject_fields.simps(2)
        add: decodeNewObject_fields.simps(2) [of "Suc n"])
  then show ?thesis
    by (simp add: bind_def long_field_value [OF assms] del: decodeNewObject_fields.simps(2))
qed

lemma version_identifier:
  assumes "getBytes (input d) 8 = Some bs" and "onInput readUTF d1 = Ok name d"
    and "tcArg = Some TC_CLASSDESC \<and> d1 = d0
         \<or> tcArg = None \<and> getBytes (input d0) 1 = Some [tag] \<and> uint tag = TC_CLASSDESC
            \<and> d1 = d0\<lparr>input := (input d0)\<lparr>position := position (input d0) + 1\<rparr>\<rparr>"
  shows "decodeClassDesc (Suc n) tcArg d0 =
           bind (decodeClassDescInfo n) (\<lambda>info.
             store (handle d) (ClassDescReference (handle d) (ClassDesc name (VBigInt (be_uint bs)) info)))
             (d\<lparr>input := (input d)\<lparr>position := position (input d) + 8\<rparr>, handle := handle d + 1\<rparr>)"
proof -
  from assms(3) have "(case tcArg of None \<Rightarrow> onInput readByte | Some tc \<Rightarrow> return tc) d0 = Ok TC_CLASSDESC d1"
    by (auto simp: return_def onInput_readByte_Some)
  with assms(1,2) show ?thesis
    by (simp add: bind_def onInput_def readULong_def nextHandle_def split: outcome.splits)
qed

lemma decode_long_field_object:
  "\<exists>dd. decode (k + 9)
      (ByteStream ([0xAC, 0xED, 0x00, 0x05, 0x73, 0x72, 0x00, 0x01, 0x43]
         @ [u0, u1, u2, u3, u4, u5, u6, u7]
         @ [0x02, 0x00, 0x01, 0x4A, 0x00, 0x01, 0x78, 0x78, 0x70]
         @ [b0, b1, b2, b3, b4, b5, b6, b7])) =
     Ok [VRecord [(''x'', VBigInt (be_sint [b0, b1, b2, b3, b4, b5, b6, b7]))]] dd
     \<and> objectRegistry dd baseWireHandle =
         Some (ClassDescReference baseWireHandle
           (ClassDesc ''C'' (VBigInt (be_uint [u0, u1, u2, u3, u4, u5, u6, u7]))
              (ClassDescInfo 2 [PrimitiveFieldDesc 74 ''x''] [] VNull)))"
proof -
  have fuel: "k + 9 = Suc (Suc (Suc (Suc (Suc (Suc (Suc (Suc (Suc k))))))))" by simp
  show ?thesis
    unfolding fuel
    by (simp add: stream_defs monad_defs decoder_defs tc_defs typecode_defs STREAM_MAGIC_def
        string_C string_x prop_classDesc_def allFieldsFromClassDesc.simps finishNewObject_def
        isPrimitiveTypecode_def decodePrimitiveValue_def
        SC_SERIALIZABLE_def SC_WRITE_METHOD_def)
qed

lemma decode_version_identifier:
  "\<exists>dd. decode (k + 7)
      (ByteStream ([0xAC, 0xED, 0x00, 0x05, 0x72, 0x00, 0x01, 0x43]
         @ [u0, u1, u2, u3, u4, u5, u6, u7]
         @ [0x02, 0x00, 0x00, 0x78, 0x70])) =
     Ok [ClassDescReference baseWireHandle
           (ClassDesc ''C'' (VBigInt (be_uint [u0, u1, u2, u3, u4, u5, u6, u7]))
              (ClassDescInfo 2 [] [] VNull))] dd"
proof -
  have fuel: "k + 7 = Suc (Suc (Suc (Suc (Suc (Suc (Suc k))))))" by simp
  show ?thesis
    unfolding fuel
    by (simp add: stream_defs monad_defs decoder_defs tc_defs STREAM_MAGIC_def string_C)
qed

section \<open>Claims\<close>

subsection \<open>C9: a header followed by a null tag\<close>

text \<open>
  C9. For the buffer made of the magic constant, the protocol version and one null-object
  tag, \<open>decode\<close> returns a sequence of exactly one element, the null value. Three units of
  fuel are enough, and any larger amount gives the same result.
\<close>

theorem decode_header_null:
  "decode (n + 3) (ByteStream [0xAC, 0xED, 0x00, 0x05, 0x70]) =
     Ok [VNull]
        \<lparr> input = \<lparr> bytes = [0xAC, 0xED, 0x00, 0x05, 0x70], position = 5 \<rparr>,
          handle = baseWireHandle, objectRegistry = Map.empty \<rparr>"
proof -
  have fuel: "n + 3 = Suc (Suc (Suc n))" by simp
  show ?thesis
    unfolding fuel
    by (simp add: stream_defs monad_defs decoder_defs tc_defs STREAM_MAGIC_def)
qed

subsection \<open>C1: a back-reference to a handle that was never stored\<close>

text \<open>
  C1 as stated (the decode fails with a dangling-reference error) does not hold:
  \<^verbatim>\<open>decodeReference\<close> returns \<^verbatim>\<open>this.objectRegistry[handle]\<close> unchecked, which is
  \<^verbatim>\<open>undefined\<close> for a missing key. A header followed by a back-reference to the never
  stored handle \<open>0x7E0000\<close> decodes to the one-element sequence holding \<^verbatim>\<open>undefined\<close>.
\<close>

theorem dangling_reference_counterexample:
  "\<forall>n. decode (Suc (Suc (Suc n))) (ByteStream [0xAC, 0xED, 0x00, 0x05, 0x71, 0x00, 0x7E, 0x00, 0x00]) =
     Ok [VUndefined]
        \<lparr> input = \<lparr> bytes = [0xAC, 0xED, 0x00, 0x05, 0x71, 0x00, 0x7E, 0x00, 0x00], position = 9 \<rparr>,
          handle = baseWireHandle, objectRegistry = Map.empty \<rparr>"
  by (simp add: stream_defs monad_defs decoder_defs tc_defs STREAM_MAGIC_def)

text \<open>
  C1, amended. Whenever the cursor stands on a back-reference tag followed by a 32-bit
  handle that is not a key of the registry, \<open>decodeObject\<close> returns \<^verbatim>\<open>undefined\<close> and
  raises no error; it consumes the five bytes and leaves the counter and the registry
  as they were.
\<close>

theorem decodeObject_dangling_reference:
  assumes "getBytes (input d) 5 = Some (tag # hbytes)"
    and "uint tag = TC_REFERENCE"
    and "objectRegistry d (be_sint hbytes) = None"
  shows "decodeObject (Suc n) d =
           Ok VUndefined (d\<lparr>input := (input d)\<lparr>position := position (input d) + 5\<rparr>\<rparr>)"
proof -
  have five: "(5::nat) = Suc 4" by simp
  from assms(1) have b: "getBytes (input d) 1 = Some [tag]"
    and h: "getBytes ((input d)\<lparr>position := position (input d) + 1\<rparr>) 4 = Some hbytes"
    unfolding five by (rule getBytes_Suc)+
  from b have "onInput readByte d =
      Ok TC_REFERENCE (d\<lparr>input := (input d)\<lparr>position := position (input d) + 1\<rparr>\<rparr>)"
    by (simp add: onInput_readByte_Some assms(2))
  moreover from h assms(3)
  have "decodeReference (d\<lparr>input := (input d)\<lparr>position := position (input d) + 1\<rparr>\<rparr>) =
          Ok VUndefined (d\<lparr>input := (input d)\<lparr>position := position (input d) + 5\<rparr>\<rparr>)"
    by (simp add: decodeReference_def bind_def onInput_def readInt_def)
  ultimately show ?thesis
    by (simp add: bind_def tc_defs)
qed

theorem decodeObject_dangling_reference_witness:
  "getBytes (input (Decoder (ByteStream [0x71, 0x00, 0x7E, 0x00, 0x00]))) 5 = Some (0x71 # [0x00, 0x7E, 0x00, 0x00])
   \<and> uint (0x71 :: byte) = TC_REFERENCE
   \<and> objectRegistry (Decoder (ByteStream [0x71, 0x00, 0x7E, 0x00, 0x00])) (be_sint [0x00, 0x7E, 0x00, 0x00]) = None
   \<and> decodeObject (Suc 0) (Decoder (ByteStream [0x71, 0x00, 0x7E, 0x00, 0x00])) =
       Ok VUndefined
          \<lparr> input = \<lparr> bytes = [0x71, 0x00, 0x7E, 0x00, 0x00], position = 5 \<rparr>,
            handle = baseWireHandle, objectRegistry = Map.empty \<rparr>"
proof -
  have a: "getBytes (input (Decoder (ByteStream [0x71, 0x00, 0x7E, 0x00, 0x00]))) 5 = Some (0x71 # [0x00, 0x7E, 0x00, 0x00])"
    by (simp add: Decoder_def ByteStream_def getBytes_def length_bs_def)
  have b: "uint (0x71 :: byte) = TC_REFERENCE"
    by (simp add: TC_REFERENCE_def)
  have c: "objectRegistry (Decoder (ByteStream [0x71, 0x00, 0x7E, 0x00, 0x00])) (be_sint [0x00, 0x7E, 0x00, 0x00]) = None"
    by (simp add: Decoder_def)
  from decodeObject_dangling_reference [OF a b c, of 0] a b c show ?thesis
    by (simp add: Decoder_def ByteStream_def)
qed

subsection \<open>C7: the magic number and the version field\<close>

text \<open>
  C7. For every buffer of at least two bytes whose first two bytes are not \<open>AC ED\<close>,
  \<open>decode\<close> throws the magic-number error with the cursor at 2, whatever the fuel: nothing
  beyond the two magic bytes has been read. The version field is read and dropped: with
  the right magic and any two version bytes \<open>vh vl\<close>, \<open>decode\<close> is the content loop started
  at offset 4, and a buffer holding only such a header decodes to the empty sequence.
\<close>

theorem magic_mismatch_fails:
  "(2 \<le> length bs \<and> take 2 bs \<noteq> [0xAC, 0xED] \<longrightarrow>
      decode fuel (ByteStream bs) =
        Throw MagicMismatch
          \<lparr> input = \<lparr> bytes = bs, position = 2 \<rparr>,
            handle = baseWireHandle, objectRegistry = Map.empty \<rparr>)
   \<and> decode fuel (ByteStream (0xAC # 0xED # vh # vl # rest)) =
       decode_contents fuel []
          \<lparr> input = \<lparr> bytes = 0xAC # 0xED # vh # vl # rest, position = 4 \<rparr>,
            handle = baseWireHandle, objectRegistry = Map.empty \<rparr>
   \<and> decode (Suc fuel) (ByteStream [0xAC, 0xED, vh, vl]) =
       Ok []
          \<lparr> input = \<lparr> bytes = [0xAC, 0xED, vh, vl], position = 4 \<rparr>,
            handle = baseWireHandle, objectRegistry = Map.empty \<rparr>"
proof (intro conjI impI)
  assume a: "2 \<le> length bs \<and> take 2 bs \<noteq> [0xAC, 0xED]"
  then obtain b0 b1 tail where bs: "bs = b0 # b1 # tail"
    by (cases bs; cases "tl bs") auto
  with a have "\<not> (b0 = 0xAC \<and> b1 = 0xED)" by simp
  then have ne: "be_uint [b0, b1] \<noteq> STREAM_MAGIC"
    by (simp only: magic_bytes not_False_eq_True)
  have "getBytes (ByteStream bs) 2 = Some [b0, b1]"
    by (simp add: bs getBytes_def ByteStream_def length_bs_def)
  with ne show "decode fuel (ByteStream bs) =
        Throw MagicMismatch
          \<lparr> input = \<lparr> bytes = bs, position = 2 \<rparr>,
            handle = baseWireHandle, objectRegistry = Map.empty \<rparr>"
    by (simp add: decode_def decode_method_def bind_def onInput_def readUShort_def throw_def
        Decoder_def ByteStream_def)
next
  have m: "be_uint [0xAC, 0xED] = STREAM_MAGIC"
    by (simp add: magic_bytes)
  have g: "getBytes (ByteStream (0xAC # 0xED # vh # vl # rest)) 2 = Some [0xAC, 0xED]"
    by (simp add: getBytes_def ByteStream_def length_bs_def)
  have g2: "getBytes (ByteStream (0xAC # 0xED # vh # vl # rest)\<lparr>position := 2\<rparr>) 2 = Some [vh, vl]"
    by (simp add: getBytes_def ByteStream_def length_bs_def)
  from m g g2 show "decode fuel (ByteStream (0xAC # 0xED # vh # vl # rest)) =
       decode_contents fuel []
          \<lparr> input = \<lparr> bytes = 0xAC # 0xED # vh # vl # rest, position = 4 \<rparr>,
            handle = baseWireHandle, objectRegistry = Map.empty \<rparr>"
    by (simp add: decode_def decode_method_def bind_def onInput_def readUShort_def
        Decoder_def ByteStream_def)
next
  show "decode (Suc fuel) (ByteStream [0xAC, 0xED, vh, vl]) =
       Ok []
          \<lparr> input = \<lparr> bytes = [0xAC, 0xED, vh, vl], position = 4 \<rparr>,
            handle = baseWireHandle, objectRegistry = Map.empty \<rparr>"
    by (simp add: stream_defs monad_defs decoder_defs STREAM_MAGIC_def)
qed

theorem magic_mismatch_fails_witness:
  "2 \<le> length [0xAC, 0xEE, 0x00, 0x05, 0x70 :: byte]
   \<and> take 2 [0xAC, 0xEE, 0x00, 0x05, 0x70 :: byte] \<noteq> [0xAC, 0xED]
   \<and> decode 5 (ByteStream [0xAC, 0xEE, 0x00, 0x05, 0x70]) =
        Throw MagicMismatch
          \<lparr> input = \<lparr> bytes = [0xAC, 0xEE, 0x00, 0x05, 0x70], position = 2 \<rparr>,
            handle = baseWireHandle, objectRegistry = Map.empty \<rparr>
   \<and> decode (Suc 5) (ByteStream [0xAC, 0xED, 0x00, 0x04]) =
       Ok []
          \<lparr> input = \<lparr> bytes = [0xAC, 0xED, 0x00, 0x04], position = 4 \<rparr>,
            handle = baseWireHandle, objectRegistry = Map.empty \<rparr>"
  using magic_mismatch_fails [where bs = "[0xAC, 0xEE, 0x00, 0x05, 0x70]" and fuel = 5
      and vh = "0x00" and vl = "0x04" and rest = "[]"]
  by simp

subsection \<open>C2: a back-reference in a class-descriptor position\<close>

text \<open>
  C2 as stated (the resolver fails when the resolved reference is not a class-descriptor
  reference) does not hold: \<^verbatim>\<open>return this.decodeReference() as ClassDescReference\<close> checks
  nothing. In the stream below a string \<open>a\<close> takes handle \<open>0x7E0000\<close>, and the superclass
  position of the class descriptor \<open>C\<close> is a back-reference to that handle: the decode
  succeeds, with the string record as the superclass descriptor.
\<close>

theorem class_position_reference_counterexample:
  "\<forall>n. \<exists>d. decode (n + 8)
      (ByteStream [0xAC, 0xED, 0x00, 0x05,
                   0x74, 0x00, 0x01, 0x61,
                   0x72, 0x00, 0x01, 0x43, 0, 0, 0, 0, 0, 0, 0, 1, 0x00, 0x00, 0x00, 0x78,
                   0x71, 0x00, 0x7E, 0x00, 0x00]) =
     Ok [VString ''a'',
         ClassDescReference 0x7E0001
           (ClassDesc ''C'' (VBigInt 1) (ClassDescInfo 0 [] [] (StringReference 0x7E0000 ''a'')))] d"
proof
  fix n
  have fuel: "n + 8 = Suc (Suc (Suc (Suc (Suc (Suc (Suc (Suc n)))))))" by simp
  show "\<exists>d. decode (n + 8)
      (ByteStream [0xAC, 0xED, 0x00, 0x05,
                   0x74, 0x00, 0x01, 0x61,
                   0x72, 0x00, 0x01, 0x43, 0, 0, 0, 0, 0, 0, 0, 1, 0x00, 0x00, 0x00, 0x78,
                   0x71, 0x00, 0x7E, 0x00, 0x00]) =
     Ok [VString ''a'',
         ClassDescReference 0x7E0001
           (ClassDesc ''C'' (VBigInt 1) (ClassDescInfo 0 [] [] (StringReference 0x7E0000 ''a'')))] d"
    unfolding fuel
    by (simp add: stream_defs monad_defs decoder_defs tc_defs STREAM_MAGIC_def
        baseWireHandle_def string_a string_C)
qed

text \<open>
  C2, amended. When \<open>decodeClassDesc\<close> reads a back-reference tag, it returns whatever the
  registry holds under the handle that follows (a string, object, array or
  class-descriptor record alike, and \<^verbatim>\<open>undefined\<close> when nothing is stored) and does not
  fail on its kind.
\<close>

theorem decodeClassDesc_reference_unchecked:
  assumes "getBytes (input d) 5 = Some (tag # hbytes)"
    and "uint tag = TC_REFERENCE"
  shows "decodeClassDesc (Suc n) None d =
           Ok (case objectRegistry d (be_sint hbytes) of None \<Rightarrow> VUndefined | Some ref \<Rightarrow> ref)
              (d\<lparr>input := (input d)\<lparr>position := position (input d) + 5\<rparr>\<rparr>)"
proof -
  have five: "(5::nat) = Suc 4" by simp
  from assms(1) have b: "getBytes (input d) 1 = Some [tag]"
    and h: "getBytes ((input d)\<lparr>position := position (input d) + 1\<rparr>) 4 = Some hbytes"
    unfolding five by (rule getBytes_Suc)+
  from b have "onInput readByte d =
      Ok TC_REFERENCE (d\<lparr>input := (input d)\<lparr>position := position (input d) + 1\<rparr>\<rparr>)"
    by (simp add: onInput_readByte_Some assms(2))
  moreover from h
  have "decodeReference (d\<lparr>input := (input d)\<lparr>position := position (input d) + 1\<rparr>\<rparr>) =
          Ok (case objectRegistry d (be_sint hbytes) of None \<Rightarrow> VUndefined | Some ref \<Rightarrow> ref)
             (d\<lparr>input := (input d)\<lparr>position := position (input d) + 5\<rparr>\<rparr>)"
    by (simp add: decodeReference_def bind_def onInput_def readInt_def)
  ultimately show ?thesis
    by (simp add: bind_def tc_defs)
qed

theorem decodeClassDesc_reference_unchecked_witness:
  "getBytes \<lparr> bytes = [0x71, 0x00, 0x7E, 0x00, 0x00], position = 0 \<rparr> 5 =
      Some (0x71 # [0x00, 0x7E, 0x00, 0x00])
   \<and> uint (0x71 :: byte) = TC_REFERENCE
   \<and> decodeClassDesc (Suc 0) None
        \<lparr> input = \<lparr> bytes = [0x71, 0x00, 0x7E, 0x00, 0x00], position = 0 \<rparr>,
          handle = 0x7E0001,
          objectRegistry = [0x7E0000 \<mapsto> StringReference 0x7E0000 ''a''] \<rparr> =
       Ok (StringReference 0x7E0000 ''a'')
        \<lparr> input = \<lparr> bytes = [0x71, 0x00, 0x7E, 0x00, 0x00], position = 5 \<rparr>,
          handle = 0x7E0001,
          objectRegistry = [0x7E0000 \<mapsto> StringReference 0x7E0000 ''a''] \<rparr>"
proof -
  have a: "getBytes (input \<lparr> input = \<lparr> bytes = [0x71, 0x00, 0x7E, 0x00, 0x00], position = 0 \<rparr>,
          handle = 0x7E0001,
          objectRegistry = [0x7E0000 \<mapsto> StringReference 0x7E0000 ''a''] \<rparr>) 5 =
      Some (0x71 # [0x00, 0x7E, 0x00, 0x00])"
    by (simp add: getBytes_def length_bs_def)
  have b: "uint (0x71 :: byte) = TC_REFERENCE"
    by (simp add: TC_REFERENCE_def)
  have c: "be_sint [0x00, 0x7E, 0x00, 0x00] = 0x7E0000"
    by (simp add: be_sint_def be_uint_def)
  from decodeClassDesc_reference_unchecked [OF a b, of 0] a b c show ?thesis
    by simp
qed

subsection \<open>C8: unsupported constructs\<close>




text \<open>A construct nested in a record: an array whose only element is an enum record.\<close>

lemma decode_nested_enum_fails:
  "\<exists>d. decode (n + 9)
      (ByteStream [0xAC, 0xED, 0x00, 0x05,
                   0x75, 0x72, 0x00, 0x01, 0x41, 0, 0, 0, 0, 0, 0, 0, 1, 0x02, 0x00, 0x00, 0x78, 0x70,
                   0x00, 0x00, 0x00, 0x01, 0x7E]) =
     Throw (UnknownTcAt 27 0x7E) d"
proof -
  have fuel: "n + 9 = Suc (Suc (Suc (Suc (Suc (Suc (Suc (Suc (Suc n))))))))" by simp
  show ?thesis
    unfolding fuel
    by (simp add: stream_defs monad_defs decoder_defs tc_defs STREAM_MAGIC_def string_A
        prop_classDesc_def)
qed

subsection \<open>C10: a class descriptor that is neither serializable nor externalizable\<close>

text \<open>
  C10 as stated does not hold for every such record: the \<^verbatim>\<open>java.util.Date\<close> case comes
  after the class data whatever the flags are, and with an empty annotation list
  \<^verbatim>\<open>new DataView(objectAnnotation[0])\<close> throws a \<^verbatim>\<open>TypeError\<close>. The stream below is an object
  of class \<open>java.util.Date\<close> whose descriptor has flags 0.
\<close>

theorem no_class_data_date_counterexample:
  "\<forall>n. \<exists>d. decode (n + 8)
      (ByteStream [0xAC, 0xED, 0x00, 0x05,
                   0x73, 0x72, 0x00, 0x0E,
                   0x6A, 0x61, 0x76, 0x61, 0x2E, 0x75, 0x74, 0x69, 0x6C, 0x2E, 0x44, 0x61, 0x74, 0x65,
                   0x68, 0x6A, 0x81, 0x01, 0x4B, 0x59, 0x74, 0x19,
                   0x00, 0x00, 0x00, 0x78, 0x70]) =
     Throw TypeError d"
proof
  fix n
  have fuel: "n + 8 = Suc (Suc (Suc (Suc (Suc (Suc (Suc (Suc n)))))))" by simp
  show "\<exists>d. decode (n + 8)
      (ByteStream [0xAC, 0xED, 0x00, 0x05,
                   0x73, 0x72, 0x00, 0x0E,
                   0x6A, 0x61, 0x76, 0x61, 0x2E, 0x75, 0x74, 0x69, 0x6C, 0x2E, 0x44, 0x61, 0x74, 0x65,
                   0x68, 0x6A, 0x81, 0x01, 0x4B, 0x59, 0x74, 0x19,
                   0x00, 0x00, 0x00, 0x78, 0x70]) =
     Throw TypeError d"
    unfolding fuel
    by (simp add: stream_defs monad_defs decoder_defs tc_defs STREAM_MAGIC_def string_Date
        prop_classDesc_def allFieldsFromClassDesc.simps finishNewObject_def
        SC_SERIALIZABLE_def SC_EXTERNALIZABLE_def)
qed

text \<open>
  C10, amended. For every new-object record whose class descriptor has neither the
  serializable nor the externalizable bit, whose class name is not \<open>java.util.Date\<close> and
  whose superclass chain can be flattened, \<open>decodeNewObject\<close> reads nothing after the class
  descriptor (the input of the final state is the one the descriptor left), and returns
  and registers, under the next handle, an object record with an empty field map and an
  empty annotation list.
\<close>

theorem decodeNewObject_no_class_data:
  assumes "decodeClassDesc n None d = Ok ref dc"
    and "get_classDesc ref = Some cd"
    and "allFieldsFromClassDesc cd = Inr fs"
    and "classDescFlags (classDescInfo cd) AND SC_SERIALIZABLE = 0"
    and "classDescFlags (classDescInfo cd) AND SC_EXTERNALIZABLE = 0"
    and "className cd \<noteq> ''java.util.Date''"
  shows "decodeNewObject (Suc n) d =
           Ok (ObjectReference (handle dc) cd [] [])
              (dc\<lparr>handle := handle dc + 1,
                  objectRegistry := (objectRegistry dc)(handle dc \<mapsto> ObjectReference (handle dc) cd [] [])\<rparr>)"
  unfolding decodeNewObject_after_classDesc [OF assms(1,2)]
  using assms(3-6)
  by (simp add: bind_def lift_def return_def finishNewObject_def store_def)

text \<open>
  A class \<open>C\<close> with flags 0 that declares an \<^verbatim>\<open>int\<close> field \<open>x\<close>: the four bytes after the
  descriptor, where a serializable class would have the value of \<open>x\<close>, are not read (the
  cursor stays at offset 21 of 25), and the object record has no field.
\<close>

theorem decodeNewObject_no_class_data_witness:
  "decodeNewObject (Suc (Suc (Suc (Suc (Suc 0)))))
       (Decoder (ByteStream [0x72, 0x00, 0x01, 0x43, 0, 0, 0, 0, 0, 0, 0, 1, 0x00, 0x00, 0x01, 0x49, 0x00, 0x01, 0x78, 0x78, 0x70, 0x00, 0x00, 0x00, 0x07])) =
     Ok (ObjectReference (baseWireHandle + 1) (ClassDesc ''C'' (VBigInt 1) (ClassDescInfo 0 [PrimitiveFieldDesc 73 ''x''] [] VNull)) [] [])
       \<lparr> input = \<lparr> bytes = [0x72, 0x00, 0x01, 0x43, 0, 0, 0, 0, 0, 0, 0, 1, 0x00, 0x00, 0x01, 0x49, 0x00, 0x01, 0x78, 0x78, 0x70, 0x00, 0x00, 0x00, 0x07], position = 21 \<rparr>,
         handle = baseWireHandle + 2,
         objectRegistry = [baseWireHandle \<mapsto> ClassDescReference baseWireHandle (ClassDesc ''C'' (VBigInt 1) (ClassDescInfo 0 [PrimitiveFieldDesc 73 ''x''] [] VNull)),
           baseWireHandle + 1 \<mapsto> ObjectReference (baseWireHandle + 1) (ClassDesc ''C'' (VBigInt 1) (ClassDescInfo 0 [PrimitiveFieldDesc 73 ''x''] [] VNull)) [] []] \<rparr>"
proof -
  have x: "decodeClassDesc (Suc (Suc (Suc (Suc 0)))) None
        (Decoder (ByteStream [0x72, 0x00, 0x01, 0x43, 0, 0, 0, 0, 0, 0, 0, 1, 0x00, 0x00, 0x01, 0x49, 0x00, 0x01, 0x78, 0x78, 0x70, 0x00, 0x00, 0x00, 0x07])) =
      Ok (ClassDescReference baseWireHandle (ClassDesc ''C'' (VBigInt 1) (ClassDescInfo 0 [PrimitiveFieldDesc 73 ''x''] [] VNull)))
         \<lparr> input = \<lparr> bytes = [0x72, 0x00, 0x01, 0x43, 0, 0, 0, 0, 0, 0, 0, 1, 0x00, 0x00, 0x01, 0x49, 0x00, 0x01, 0x78, 0x78, 0x70, 0x00, 0x00, 0x00, 0x07], position = 21 \<rparr>,
           handle = baseWireHandle + 1,
           objectRegistry = [baseWireHandle \<mapsto> ClassDescReference baseWireHandle (ClassDesc ''C'' (VBigInt 1) (ClassDescInfo 0 [PrimitiveFieldDesc 73 ''x''] [] VNull))] \<rparr>"
    by (simp add: stream_defs monad_defs decoder_defs tc_defs typecode_defs string_C string_x
        isPrimitiveTypecode_def)
  have g: "get_classDesc (ClassDescReference baseWireHandle (ClassDesc ''C'' (VBigInt 1) (ClassDescInfo 0 [PrimitiveFieldDesc 73 ''x''] [] VNull))) = Some (ClassDesc ''C'' (VBigInt 1) (ClassDescInfo 0 [PrimitiveFieldDesc 73 ''x''] [] VNull))"
    by simp
  have f: "allFieldsFromClassDesc (ClassDesc ''C'' (VBigInt 1) (ClassDescInfo 0 [PrimitiveFieldDesc 73 ''x''] [] VNull)) = Inr [PrimitiveFieldDesc 73 ''x'']"
    by (simp add: allFieldsFromClassDesc.simps)
  have s: "classDescFlags (classDescInfo (ClassDesc ''C'' (VBigInt 1) (ClassDescInfo 0 [PrimitiveFieldDesc 73 ''x''] [] VNull))) AND SC_SERIALIZABLE = 0"
    by simp
  have e: "classDescFlags (classDescInfo (ClassDesc ''C'' (VBigInt 1) (ClassDescInfo 0 [PrimitiveFieldDesc 73 ''x''] [] VNull))) AND SC_EXTERNALIZABLE = 0"
    by simp
  have c: "className (ClassDesc ''C'' (VBigInt 1) (ClassDescInfo 0 [PrimitiveFieldDesc 73 ''x''] [] VNull)) \<noteq> ''java.util.Date''"
    by simp
  from decodeNewObject_no_class_data [OF x g f s e c] show ?thesis
    by (simp add: baseWireHandle_def)
qed

text \<open>
  The class name is the string that \<^verbatim>\<open>TextDecoder\<close> returns: a byte-order mark before the
  name is dropped, so the class below is \<open>java.util.Date\<close> too, and its object, with
  flags 0, throws the \<^verbatim>\<open>TypeError\<close> as well.
\<close>

lemma decode_date_bom_no_class_data:
  "\<exists>d. decode (n + 8)
      (ByteStream [0xAC, 0xED, 0x00, 0x05,
                   0x73, 0x72, 0x00, 0x11, 0xEF, 0xBB, 0xBF,
                   0x6A, 0x61, 0x76, 0x61, 0x2E, 0x75, 0x74, 0x69, 0x6C, 0x2E, 0x44, 0x61, 0x74, 0x65,
                   0x68, 0x6A, 0x81, 0x01, 0x4B, 0x59, 0x74, 0x19,
                   0x00, 0x00, 0x00, 0x78, 0x70]) =
     Throw TypeError d"
proof -
  have fuel: "n + 8 = Suc (Suc (Suc (Suc (Suc (Suc (Suc (Suc n)))))))" by simp
  show ?thesis
    unfolding fuel
    by (simp add: stream_defs monad_defs decoder_defs tc_defs STREAM_MAGIC_def string_Date_bom
        prop_classDesc_def allFieldsFromClassDesc.simps finishNewObject_def
        SC_SERIALIZABLE_def SC_EXTERNALIZABLE_def)
qed

subsection \<open>C5: objects of class \<open>java.util.Date\<close>\<close>

text \<open>
  C5 as stated does not hold for every 64-bit millisecond value: \<^verbatim>\<open>new Date(x)\<close> is an
  invalid date when \<open>x\<close> exceeds 8.64e15, and \<^verbatim>\<open>toJSON()\<close> of an invalid date is \<^verbatim>\<open>null\<close>.
  The stream below is a date object whose annotation block holds \<open>FF FF FF FF FF FF FF FF\<close>;
  its exported value is \<^verbatim>\<open>null\<close>, not a timestamp.
\<close>

theorem date_out_of_range_counterexample:
  "\<forall>n. \<exists>d. decode (n + 8)
      (ByteStream [0xAC, 0xED, 0x00, 0x05,
                   0x73, 0x72, 0x00, 0x0E,
                   0x6A, 0x61, 0x76, 0x61, 0x2E, 0x75, 0x74, 0x69, 0x6C, 0x2E, 0x44, 0x61, 0x74, 0x65,
                   0x68, 0x6A, 0x81, 0x01, 0x4B, 0x59, 0x74, 0x19,
                   0x03, 0x00, 0x00, 0x78, 0x70,
                   0x77, 0x08, 0xFF, 0xFF, 0xFF, 0xFF, 0xFF, 0xFF, 0xFF, 0xFF, 0x78]) =
     Ok [VNull] d"
proof
  fix n
  have fuel: "n + 8 = Suc (Suc (Suc (Suc (Suc (Suc (Suc (Suc n)))))))" by simp
  show "\<exists>d. decode (n + 8)
      (ByteStream [0xAC, 0xED, 0x00, 0x05,
                   0x73, 0x72, 0x00, 0x0E,
                   0x6A, 0x61, 0x76, 0x61, 0x2E, 0x75, 0x74, 0x69, 0x6C, 0x2E, 0x44, 0x61, 0x74, 0x65,
                   0x68, 0x6A, 0x81, 0x01, 0x4B, 0x59, 0x74, 0x19,
                   0x03, 0x00, 0x00, 0x78, 0x70,
                   0x77, 0x08, 0xFF, 0xFF, 0xFF, 0xFF, 0xFF, 0xFF, 0xFF, 0xFF, 0x78]) =
     Ok [VNull] d"
    unfolding fuel
    by (simp add: stream_defs monad_defs decoder_defs tc_defs STREAM_MAGIC_def string_Date
        prop_classDesc_def allFieldsFromClassDesc.simps finishNewObject_def
        SC_SERIALIZABLE_def SC_WRITE_METHOD_def Date_toJSON_def get_prop_def)
qed

text \<open>
  C5, amended. For every object record of class \<open>java.util.Date\<close> whose annotation starts
  with a block-data buffer of at least 8 bytes, the record is stored with the single
  property \<open>date\<close> (the decoded fields are dropped) and its exported value is that single
  value, not a field mapping: the ISO-8601 text of the instant when the big-endian
  unsigned millisecond value of the first 8 bytes is at most 8.64e15, and \<^verbatim>\<open>null\<close> beyond.
  A millisecond value of 0 is exported as \<open>1970-01-01T00:00:00.000Z\<close>.
\<close>

theorem date_object_exported_value:
  assumes "className cd = ''java.util.Date''"
    and "8 \<le> length buf"
  shows "finishNewObject h cd classData (VArrayBuffer buf # rest) d =
           Ok (ObjectReference h cd [(''date'', Date_toJSON (be_uint (take 8 buf)))] (VArrayBuffer buf # rest))
              (d\<lparr>objectRegistry := (objectRegistry d)
                    (h \<mapsto> ObjectReference h cd [(''date'', Date_toJSON (be_uint (take 8 buf)))]
                            (VArrayBuffer buf # rest))\<rparr>)
         \<and> simplifyReference
             (ObjectReference h cd [(''date'', Date_toJSON (be_uint (take 8 buf)))] (VArrayBuffer buf # rest)) =
             (if be_uint (take 8 buf) \<le> 8640000000000000
              then VString (toISOString (be_uint (take 8 buf))) else VNull)
         \<and> (take 8 buf = [0, 0, 0, 0, 0, 0, 0, 0] \<longrightarrow>
             simplifyReference
               (ObjectReference h cd [(''date'', Date_toJSON (be_uint (take 8 buf)))] (VArrayBuffer buf # rest)) =
               VString ''1970-01-01T00:00:00.000Z'')"
proof -
  have epoch: "toISOString 0 = ''1970-01-01T00:00:00.000Z''"
    by code_simp
  have z: "be_uint [0, 0, 0, 0, 0, 0, 0, 0] = 0"
    by (simp add: be_uint_def)
  from assms show ?thesis
    by (auto simp add: finishNewObject_def store_def get_prop_def Date_toJSON_def epoch z)
qed


theorem date_object_exported_value_witness:
  "className (ClassDesc ''java.util.Date'' (VBigInt 1) (ClassDescInfo 3 [] [] VNull)) = ''java.util.Date''
   \<and> 8 \<le> length [0, 0, 0, 0, 0, 0, 0, 0 :: byte]
   \<and> simplifyReference
       (ObjectReference baseWireHandle (ClassDesc ''java.util.Date'' (VBigInt 1) (ClassDescInfo 3 [] [] VNull))
          [(''date'', Date_toJSON (be_uint (take 8 [0, 0, 0, 0, 0, 0, 0, 0])))]
          (VArrayBuffer [0, 0, 0, 0, 0, 0, 0, 0] # [])) =
       VString ''1970-01-01T00:00:00.000Z''"
proof -
  have a: "className (ClassDesc ''java.util.Date'' (VBigInt 1) (ClassDescInfo 3 [] [] VNull)) = ''java.util.Date''"
    by simp
  have b: "8 \<le> length [0, 0, 0, 0, 0, 0, 0, 0 :: byte]"
    by simp
  from date_object_exported_value [OF a b, where h = baseWireHandle and rest = "[]",
      THEN conjunct2, THEN conjunct2] a b
  show ?thesis
    by simp
qed

text \<open>The same end to end: a date object with millisecond value 0.\<close>

lemma decode_date_epoch:
  "\<exists>d. decode (n + 8)
      (ByteStream [0xAC, 0xED, 0x00, 0x05,
                   0x73, 0x72, 0x00, 0x0E,
                   0x6A, 0x61, 0x76, 0x61, 0x2E, 0x75, 0x74, 0x69, 0x6C, 0x2E, 0x44, 0x61, 0x74, 0x65,
                   0x68, 0x6A, 0x81, 0x01, 0x4B, 0x59, 0x74, 0x19,
                   0x03, 0x00, 0x00, 0x78, 0x70,
                   0x77, 0x08, 0x00, 0x00, 0x00, 0x00, 0x00, 0x00, 0x00, 0x00, 0x78]) =
     Ok [VString ''1970-01-01T00:00:00.000Z''] d"
proof -
  have fuel: "n + 8 = Suc (Suc (Suc (Suc (Suc (Suc (Suc (Suc n)))))))" by simp
  have epoch: "toISOString 0 = ''1970-01-01T00:00:00.000Z''"
    by code_simp
  show ?thesis
    unfolding fuel
    by (simp add: stream_defs monad_defs decoder_defs tc_defs STREAM_MAGIC_def string_Date
        prop_classDesc_def allFieldsFromClassDesc.simps finishNewObject_def
        SC_SERIALIZABLE_def SC_WRITE_METHOD_def Date_toJSON_def get_prop_def epoch)
qed

subsection \<open>C4: the flattened field list\<close>

text \<open>
  C4. For every superclass chain \<open>cs\<close> (most distant ancestor first, the class itself
  last), \<open>allFieldsFromClassDesc\<close> of the class returns the concatenation of the declared
  field lists of the descriptors of the chain, in that order, each list as declared.
\<close>

theorem allFields_superclass_chain:
  assumes "superclass_chain cs"
  shows "allFieldsFromClassDesc (last cs) =
           Inr (concat (map (\<lambda>c. ClassDescInfo.fields (classDescInfo c)) cs))"
proof -
  from assms obtain root rest where cs: "cs = root # rest" by (cases cs) auto
  with assms have r: "\<not> truthy (superClassDesc (classDescInfo root))" and l: "linked root rest"
    by simp_all
  from r have "allFieldsFromClassDesc root = Inr (ClassDescInfo.fields (classDescInfo root))"
    by (simp add: allFieldsFromClassDesc.simps [of root])
  from allFields_linked [OF this l] show ?thesis
    by (simp add: cs)
qed

text \<open>A grandparent \<open>G\<close>, a parent \<open>P\<close> and a child \<open>C\<close>.\<close>

theorem allFields_superclass_chain_witness:
  "superclass_chain
     [ClassDesc ''G'' (VBigInt 1) (ClassDescInfo 2 [PrimitiveFieldDesc 73 ''g1'', PrimitiveFieldDesc 74 ''g2''] [] VNull),
      ClassDesc ''P'' (VBigInt 2) (ClassDescInfo 2 [PrimitiveFieldDesc 90 ''p1''] [] (ClassDescReference 0x7E0000 (ClassDesc ''G'' (VBigInt 1) (ClassDescInfo 2 [PrimitiveFieldDesc 73 ''g1'', PrimitiveFieldDesc 74 ''g2''] [] VNull)))),
      ClassDesc ''C'' (VBigInt 3) (ClassDescInfo 2 [PrimitiveFieldDesc 66 ''c1'', PrimitiveFieldDesc 83 ''c2''] [] (ClassDescReference 0x7E0001 (ClassDesc ''P'' (VBigInt 2) (ClassDescInfo 2 [PrimitiveFieldDesc 90 ''p1''] [] (ClassDescReference 0x7E0000 (ClassDesc ''G'' (VBigInt 1) (ClassDescInfo 2 [PrimitiveFieldDesc 73 ''g1'', PrimitiveFieldDesc 74 ''g2''] [] VNull)))))))]
   \<and> allFieldsFromClassDesc
        (ClassDesc ''C'' (VBigInt 3) (ClassDescInfo 2 [PrimitiveFieldDesc 66 ''c1'', PrimitiveFieldDesc 83 ''c2''] [] (ClassDescReference 0x7E0001 (ClassDesc ''P'' (VBigInt 2) (ClassDescInfo 2 [PrimitiveFieldDesc 90 ''p1''] [] (ClassDescReference 0x7E0000 (ClassDesc ''G'' (VBigInt 1) (ClassDescInfo 2 [PrimitiveFieldDesc 73 ''g1'', PrimitiveFieldDesc 74 ''g2''] [] VNull)))))))) =
      Inr [PrimitiveFieldDesc 73 ''g1'', PrimitiveFieldDesc 74 ''g2'',
           PrimitiveFieldDesc 90 ''p1'',
           PrimitiveFieldDesc 66 ''c1'', PrimitiveFieldDesc 83 ''c2'']"
proof -
  have a: "superclass_chain
     [ClassDesc ''G'' (VBigInt 1) (ClassDescInfo 2 [PrimitiveFieldDesc 73 ''g1'', PrimitiveFieldDesc 74 ''g2''] [] VNull),
      ClassDesc ''P'' (VBigInt 2) (ClassDescInfo 2 [PrimitiveFieldDesc 90 ''p1''] [] (ClassDescReference 0x7E0000 (ClassDesc ''G'' (VBigInt 1) (ClassDescInfo 2 [PrimitiveFieldDesc 73 ''g1'', PrimitiveFieldDesc 74 ''g2''] [] VNull)))),
      ClassDesc ''C'' (VBigInt 3) (ClassDescInfo 2 [PrimitiveFieldDesc 66 ''c1'', PrimitiveFieldDesc 83 ''c2''] [] (ClassDescReference 0x7E0001 (ClassDesc ''P'' (VBigInt 2) (ClassDescInfo 2 [PrimitiveFieldDesc 90 ''p1''] [] (ClassDescReference 0x7E0000 (ClassDesc ''G'' (VBigInt 1) (ClassDescInfo 2 [PrimitiveFieldDesc 73 ''g1'', PrimitiveFieldDesc 74 ''g2''] [] VNull)))))))]"
    by simp
  from allFields_superclass_chain [OF a] a show ?thesis
    by simp
qed

subsection \<open>C6: long values and version identifiers\<close>

text \<open>
  C6. A long-typed field value is the \<^verbatim>\<open>bigint\<close> read by \<^verbatim>\<open>getBigInt64\<close>: the exact
  two's complement value of the eight bytes at the cursor. The version identifier kept in a
  new class descriptor is the \<^verbatim>\<open>bigint\<close> read by \<^verbatim>\<open>getBigUint64\<close>: the exact unsigned value
  of the eight bytes after the class name. With \<open>bs\<close> the eight bytes at the cursor:
  \<^item> \<open>decodePrimitiveValue\<close> and \<open>decodeValues\<close> of a long field return that \<^verbatim>\<open>bigint\<close>;
  \<^item> the field loop of \<open>decodeNewObject\<close> assigns it, unchanged, to the field's name in the
    class data, where it is what a lookup of that name finds;
  \<^item> the export of an object record (other than a date) is its class data, unchanged;
  \<^item> \<open>decodeClassDesc\<close>, called with the class-descriptor tag or reading it itself, keeps
    the unsigned value of the eight bytes after the name as the version identifier of the
    record it stores;
  \<^item> end to end: the stream of an object of a class \<open>C\<close> with version identifier bytes
    \<open>bs\<close> and one long field \<open>x\<close> with value bytes \<open>bs\<close> decodes to the record
    \<^verbatim>\<open>{x: <signed value of bs>}\<close>, and the registry holds the descriptor with the unsigned
    value of \<open>bs\<close>; a top-level class descriptor decodes to a record with that identifier;
  \<^item> both values lie in their 64-bit range, and no two eight-byte patterns give the same
    value: nothing is rounded.
\<close>

theorem long_values_exact:
  assumes "getBytes (input d) 8 = Some bs"
  shows "decodePrimitiveValue TYPECODE_LONG d =
           Ok (VBigInt (be_sint bs)) (d\<lparr>input := (input d)\<lparr>position := position (input d) + 8\<rparr>\<rparr>)
       \<and> decodeValues (Suc n) (PrimitiveFieldDesc TYPECODE_LONG name) d =
           Ok (VBigInt (be_sint bs)) (d\<lparr>input := (input d)\<lparr>position := position (input d) + 8\<rparr>\<rparr>)
       \<and> decodeNewObject_fields (Suc (Suc n)) (PrimitiveFieldDesc TYPECODE_LONG name # rest) classData d =
           decodeNewObject_fields (Suc n) rest (assign classData name (VBigInt (be_sint bs)))
             (d\<lparr>input := (input d)\<lparr>position := position (input d) + 8\<rparr>\<rparr>)
       \<and> get_prop (assign classData name (VBigInt (be_sint bs))) name = VBigInt (be_sint bs)
       \<and> (className cd \<noteq> ''java.util.Date'' \<longrightarrow>
            simplifyReference (ObjectReference h cd obj ann) = VRecord obj)
       \<and> (onInput readUTF d1 = Ok cname d
            \<and> (tcArg = Some TC_CLASSDESC \<and> d1 = d0
               \<or> tcArg = None \<and> getBytes (input d0) 1 = Some [tag] \<and> uint tag = TC_CLASSDESC
                  \<and> d1 = d0\<lparr>input := (input d0)\<lparr>position := position (input d0) + 1\<rparr>\<rparr>) \<longrightarrow>
            decodeClassDesc (Suc n) tcArg d0 =
              bind (decodeClassDescInfo n) (\<lambda>info.
                store (handle d) (ClassDescReference (handle d) (ClassDesc cname (VBigInt (be_uint bs)) info)))
                (d\<lparr>input := (input d)\<lparr>position := position (input d) + 8\<rparr>, handle := handle d + 1\<rparr>))
       \<and> (\<exists>dd. decode (k + 9)
              (ByteStream ([0xAC, 0xED, 0x00, 0x05, 0x73, 0x72, 0x00, 0x01, 0x43] @ bs
                 @ [0x02, 0x00, 0x01, 0x4A, 0x00, 0x01, 0x78, 0x78, 0x70] @ bs)) =
              Ok [VRecord [(''x'', VBigInt (be_sint bs))]] dd
            \<and> objectRegistry dd baseWireHandle =
                Some (ClassDescReference baseWireHandle
                  (ClassDesc ''C'' (VBigInt (be_uint bs))
                     (ClassDescInfo 2 [PrimitiveFieldDesc 74 ''x''] [] VNull))))
       \<and> (\<exists>dd. decode (k + 7)
              (ByteStream ([0xAC, 0xED, 0x00, 0x05, 0x72, 0x00, 0x01, 0x43] @ bs
                 @ [0x02, 0x00, 0x00, 0x78, 0x70])) =
              Ok [ClassDescReference baseWireHandle
                    (ClassDesc ''C'' (VBigInt (be_uint bs)) (ClassDescInfo 2 [] [] VNull))] dd)
       \<and> - (2 ^ 63) \<le> be_sint bs \<and> be_sint bs < 2 ^ 63
       \<and> 0 \<le> be_uint bs \<and> be_uint bs < 2 ^ 64
       \<and> be_sint bs mod 2 ^ 64 = be_uint bs
       \<and> (\<forall>bs'. length bs' = 8 \<and> (be_sint bs' = be_sint bs \<or> be_uint bs' = be_uint bs) \<longrightarrow> bs' = bs)"
proof -
  from assms have len: "length bs = 8" by (rule getBytes_length)
  then obtain b0 b1 b2 b3 b4 b5 b6 b7 where bs: "bs = [b0, b1, b2, b3, b4, b5, b6, b7]"
    using list8 by blast
  note v = long_field_value [OF assms]
  have 1: "decodePrimitiveValue TYPECODE_LONG d =
           Ok (VBigInt (be_sint bs)) (d\<lparr>input := (input d)\<lparr>position := position (input d) + 8\<rparr>\<rparr>)"
    by (rule v)
  have 2: "decodeValues (Suc n) (PrimitiveFieldDesc TYPECODE_LONG name) d =
           Ok (VBigInt (be_sint bs)) (d\<lparr>input := (input d)\<lparr>position := position (input d) + 8\<rparr>\<rparr>)"
    by (simp add: v)
  have 3: "decodeNewObject_fields (Suc (Suc n)) (PrimitiveFieldDesc TYPECODE_LONG name # rest) classData d =
           decodeNewObject_fields (Suc n) rest (assign classData name (VBigInt (be_sint bs)))
             (d\<lparr>input := (input d)\<lparr>position := position (input d) + 8\<rparr>\<rparr>)"
    by (rule long_field_step [OF assms])
  have 4: "get_prop (assign classData name (VBigInt (be_sint bs))) name = VBigInt (be_sint bs)"
    by (rule get_prop_assign)
  have 5: "className cd \<noteq> ''java.util.Date'' \<longrightarrow>
            simplifyReference (ObjectReference h cd obj ann) = VRecord obj"
    by simp
  have 6: "onInput readUTF d1 = Ok cname d
            \<and> (tcArg = Some TC_CLASSDESC \<and> d1 = d0
               \<or> tcArg = None \<and> getBytes (input d0) 1 = Some [tag] \<and> uint tag = TC_CLASSDESC
                  \<and> d1 = d0\<lparr>input := (input d0)\<lparr>position := position (input d0) + 1\<rparr>\<rparr>) \<longrightarrow>
            decodeClassDesc (Suc n) tcArg d0 =
              bind (decodeClassDescInfo n) (\<lambda>info.
                store (handle d) (ClassDescReference (handle d) (ClassDesc cname (VBigInt (be_uint bs)) info)))
                (d\<lparr>input := (input d)\<lparr>position := position (input d) + 8\<rparr>, handle := handle d + 1\<rparr>)"
    using version_identifier [OF assms, of d1 cname tcArg d0 tag n] by blast
  have 7: "\<exists>dd. decode (k + 9)
              (ByteStream ([0xAC, 0xED, 0x00, 0x05, 0x73, 0x72, 0x00, 0x01, 0x43] @ bs
                 @ [0x02, 0x00, 0x01, 0x4A, 0x00, 0x01, 0x78, 0x78, 0x70] @ bs)) =
              Ok [VRecord [(''x'', VBigInt (be_sint bs))]] dd
            \<and> objectRegistry dd baseWireHandle =
                Some (ClassDescReference baseWireHandle
                  (ClassDesc ''C'' (VBigInt (be_uint bs))
                     (ClassDescInfo 2 [PrimitiveFieldDesc 74 ''x''] [] VNull)))"
    unfolding bs by (rule decode_long_field_object)
  have 8: "\<exists>dd. decode (k + 7)
              (ByteStream ([0xAC, 0xED, 0x00, 0x05, 0x72, 0x00, 0x01, 0x43] @ bs
                 @ [0x02, 0x00, 0x00, 0x78, 0x70])) =
              Ok [ClassDescReference baseWireHandle
                    (ClassDesc ''C'' (VBigInt (be_uint bs)) (ClassDescInfo 2 [] [] VNull))] dd"
    unfolding bs by (rule decode_version_identifier)
  from be_sint_bounds [of bs] have 9: "- (2 ^ 63) \<le> be_sint bs \<and> be_sint bs < 2 ^ 63"
    by (simp add: len)
  from be_uint_bounds [of bs] have 10: "0 \<le> be_uint bs \<and> be_uint bs < 2 ^ 64"
    by (simp add: len)
  from be_sint_mod [of bs] have 11: "be_sint bs mod 2 ^ 64 = be_uint bs"
    by (simp add: len)
  have 12: "\<forall>bs'. length bs' = 8 \<and> (be_sint bs' = be_sint bs \<or> be_uint bs' = be_uint bs) \<longrightarrow> bs' = bs"
  proof (intro allI impI)
    fix bs'
    assume h: "length bs' = 8 \<and> (be_sint bs' = be_sint bs \<or> be_uint bs' = be_uint bs)"
    then have l: "length bs' = length bs" by (simp add: len)
    from h consider "be_sint bs' = be_sint bs" | "be_uint bs' = be_uint bs" by blast
    then show "bs' = bs"
    proof cases
      case 1
      with l show ?thesis by (rule be_sint_inject)
    next
      case 2
      with l show ?thesis by (rule be_uint_inject)
    qed
  qed
  from 1 2 3 4 5 6 7 8 9 10 11 12 show ?thesis by (intro conjI) simp_all
qed

text \<open>
  The bytes \<^verbatim>\<open>80 00 00 00 00 00 00 01\<close>: the long \<open>- 9223372036854775807\<close> and the version
  identifier \<open>9223372036854775809\<close>, neither of which is a double.
\<close>

theorem long_values_exact_witness:
  "getBytes (input (Decoder (ByteStream [0x80, 0, 0, 0, 0, 0, 0, 1]))) 8 = Some [0x80, 0, 0, 0, 0, 0, 0, 1]
   \<and> decodePrimitiveValue TYPECODE_LONG (Decoder (ByteStream [0x80, 0, 0, 0, 0, 0, 0, 1])) =
       Ok (VBigInt (- 9223372036854775807))
          \<lparr> input = \<lparr> bytes = [0x80, 0, 0, 0, 0, 0, 0, 1], position = 8 \<rparr>,
            handle = baseWireHandle, objectRegistry = Map.empty \<rparr>
   \<and> (\<exists>dd. decode 9
          (ByteStream [0xAC, 0xED, 0x00, 0x05, 0x73, 0x72, 0x00, 0x01, 0x43,
                       0x80, 0, 0, 0, 0, 0, 0, 1,
                       0x02, 0x00, 0x01, 0x4A, 0x00, 0x01, 0x78, 0x78, 0x70,
                       0x80, 0, 0, 0, 0, 0, 0, 1]) =
          Ok [VRecord [(''x'', VBigInt (- 9223372036854775807))]] dd
        \<and> objectRegistry dd baseWireHandle =
            Some (ClassDescReference baseWireHandle
              (ClassDesc ''C'' (VBigInt 9223372036854775809)
                 (ClassDescInfo 2 [PrimitiveFieldDesc 74 ''x''] [] VNull))))
   \<and> (\<exists>dd. decode 7
          (ByteStream [0xAC, 0xED, 0x00, 0x05, 0x72, 0x00, 0x01, 0x43,
                       0x80, 0, 0, 0, 0, 0, 0, 1,
                       0x02, 0x00, 0x00, 0x78, 0x70]) =
          Ok [ClassDescReference baseWireHandle
                (ClassDesc ''C'' (VBigInt 9223372036854775809) (ClassDescInfo 2 [] [] VNull))] dd)
   \<and> getBytes \<lparr> bytes = [0x72, 0x00, 0x01, 0x43, 0x80, 0, 0, 0, 0, 0, 0, 1, 0x02, 0x00, 0x00, 0x78, 0x70], position = 4 \<rparr> 8 = Some [0x80, 0, 0, 0, 0, 0, 0, 1]
   \<and> getBytes (input (Decoder (ByteStream [0x72, 0x00, 0x01, 0x43, 0x80, 0, 0, 0, 0, 0, 0, 1, 0x02, 0x00, 0x00, 0x78, 0x70]))) 1 = Some [0x72]
   \<and> onInput readUTF
        \<lparr> input = \<lparr> bytes = [0x72, 0x00, 0x01, 0x43, 0x80, 0, 0, 0, 0, 0, 0, 1, 0x02, 0x00, 0x00, 0x78, 0x70], position = 1 \<rparr>,
          handle = baseWireHandle, objectRegistry = Map.empty \<rparr> =
       Ok ''C''
        \<lparr> input = \<lparr> bytes = [0x72, 0x00, 0x01, 0x43, 0x80, 0, 0, 0, 0, 0, 0, 1, 0x02, 0x00, 0x00, 0x78, 0x70], position = 4 \<rparr>,
          handle = baseWireHandle, objectRegistry = Map.empty \<rparr>
   \<and> decodeClassDesc (Suc (Suc (Suc 0))) None (Decoder (ByteStream [0x72, 0x00, 0x01, 0x43, 0x80, 0, 0, 0, 0, 0, 0, 1, 0x02, 0x00, 0x00, 0x78, 0x70])) =
       Ok (ClassDescReference baseWireHandle (ClassDesc ''C'' (VBigInt 9223372036854775809) (ClassDescInfo 2 [] [] VNull)))
        \<lparr> input = \<lparr> bytes = [0x72, 0x00, 0x01, 0x43, 0x80, 0, 0, 0, 0, 0, 0, 1, 0x02, 0x00, 0x00, 0x78, 0x70], position = 17 \<rparr>,
          handle = baseWireHandle + 1,
          objectRegistry = [baseWireHandle \<mapsto> ClassDescReference baseWireHandle (ClassDesc ''C'' (VBigInt 9223372036854775809) (ClassDescInfo 2 [] [] VNull))] \<rparr>
   \<and> className (ClassDesc ''C'' (VBigInt 9223372036854775809) (ClassDescInfo 2 [PrimitiveFieldDesc 74 ''x''] [] VNull)) \<noteq> ''java.util.Date''
   \<and> simplifyReference (ObjectReference (baseWireHandle + 1) (ClassDesc ''C'' (VBigInt 9223372036854775809) (ClassDescInfo 2 [PrimitiveFieldDesc 74 ''x''] [] VNull)) [(''x'', VBigInt (- 9223372036854775807))] []) = VRecord [(''x'', VBigInt (- 9223372036854775807))]
   \<and> length [0x80, 0, 0, 0, 0, 0, 0, 1 :: byte] = 8"
proof -
  have a: "getBytes (input (Decoder (ByteStream [0x80, 0, 0, 0, 0, 0, 0, 1]))) 8 = Some [0x80, 0, 0, 0, 0, 0, 0, 1]"
    by (simp add: Decoder_def ByteStream_def getBytes_def length_bs_def)
  have s: "be_sint [0x80, 0, 0, 0, 0, 0, 0, 1] = - 9223372036854775807"
    by (simp add: be_sint_def be_uint_def)
  have u: "be_uint [0x80, 0, 0, 0, 0, 0, 0, 1] = 9223372036854775809"
    by (simp add: be_uint_def)
  note t = long_values_exact [OF a, where k = 0]
  have n: "className (ClassDesc ''C'' (VBigInt 9223372036854775809) (ClassDescInfo 2 [PrimitiveFieldDesc 74 ''x''] [] VNull)) \<noteq> ''java.util.Date''"
    by simp
  have i: "length [0x80, 0, 0, 0, 0, 0, 0, 1 :: byte] = 8
      \<and> (be_sint [0x80, 0, 0, 0, 0, 0, 0, 1] = be_sint [0x80, 0, 0, 0, 0, 0, 0, 1]
         \<or> be_uint [0x80, 0, 0, 0, 0, 0, 0, 1] = be_uint [0x80, 0, 0, 0, 0, 0, 0, 1])"
    by simp
  have b: "getBytes (input \<lparr> input = \<lparr> bytes = [0x72, 0x00, 0x01, 0x43, 0x80, 0, 0, 0, 0, 0, 0, 1, 0x02, 0x00, 0x00, 0x78, 0x70], position = 4 \<rparr>,
          handle = baseWireHandle, objectRegistry = Map.empty \<rparr>) 8 = Some [0x80, 0, 0, 0, 0, 0, 0, 1]"
    by (simp add: getBytes_def length_bs_def)
  have g: "getBytes (input (Decoder (ByteStream [0x72, 0x00, 0x01, 0x43, 0x80, 0, 0, 0, 0, 0, 0, 1, 0x02, 0x00, 0x00, 0x78, 0x70]))) 1 = Some [0x72]"
    by (simp add: Decoder_def ByteStream_def getBytes_def length_bs_def)
  have r: "onInput readUTF
        \<lparr> input = \<lparr> bytes = [0x72, 0x00, 0x01, 0x43, 0x80, 0, 0, 0, 0, 0, 0, 1, 0x02, 0x00, 0x00, 0x78, 0x70], position = 1 \<rparr>,
          handle = baseWireHandle, objectRegistry = Map.empty \<rparr> =
       Ok ''C''
        \<lparr> input = \<lparr> bytes = [0x72, 0x00, 0x01, 0x43, 0x80, 0, 0, 0, 0, 0, 0, 1, 0x02, 0x00, 0x00, 0x78, 0x70], position = 4 \<rparr>,
          handle = baseWireHandle, objectRegistry = Map.empty \<rparr>"
    by (simp add: stream_defs monad_defs string_C)
  have h: "onInput readUTF
        \<lparr> input = \<lparr> bytes = [0x72, 0x00, 0x01, 0x43, 0x80, 0, 0, 0, 0, 0, 0, 1, 0x02, 0x00, 0x00, 0x78, 0x70], position = 1 \<rparr>,
          handle = baseWireHandle, objectRegistry = Map.empty \<rparr> =
       Ok ''C''
        \<lparr> input = \<lparr> bytes = [0x72, 0x00, 0x01, 0x43, 0x80, 0, 0, 0, 0, 0, 0, 1, 0x02, 0x00, 0x00, 0x78, 0x70], position = 4 \<rparr>,
          handle = baseWireHandle, objectRegistry = Map.empty \<rparr>
     \<and> (None = Some TC_CLASSDESC
          \<and> \<lparr> input = \<lparr> bytes = [0x72, 0x00, 0x01, 0x43, 0x80, 0, 0, 0, 0, 0, 0, 1, 0x02, 0x00, 0x00, 0x78, 0x70], position = 1 \<rparr>,
               handle = baseWireHandle, objectRegistry = Map.empty \<rparr> = Decoder (ByteStream [0x72, 0x00, 0x01, 0x43, 0x80, 0, 0, 0, 0, 0, 0, 1, 0x02, 0x00, 0x00, 0x78, 0x70])
        \<or> None = None \<and> getBytes (input (Decoder (ByteStream [0x72, 0x00, 0x01, 0x43, 0x80, 0, 0, 0, 0, 0, 0, 1, 0x02, 0x00, 0x00, 0x78, 0x70]))) 1 = Some [0x72]
          \<and> uint (0x72 :: byte) = TC_CLASSDESC
          \<and> \<lparr> input = \<lparr> bytes = [0x72, 0x00, 0x01, 0x43, 0x80, 0, 0, 0, 0, 0, 0, 1, 0x02, 0x00, 0x00, 0x78, 0x70], position = 1 \<rparr>,
               handle = baseWireHandle, objectRegistry = Map.empty \<rparr> =
            (Decoder (ByteStream [0x72, 0x00, 0x01, 0x43, 0x80, 0, 0, 0, 0, 0, 0, 1, 0x02, 0x00, 0x00, 0x78, 0x70]))\<lparr>input := (input (Decoder (ByteStream [0x72, 0x00, 0x01, 0x43, 0x80, 0, 0, 0, 0, 0, 0, 1, 0x02, 0x00, 0x00, 0x78, 0x70])))
               \<lparr>position := position (input (Decoder (ByteStream [0x72, 0x00, 0x01, 0x43, 0x80, 0, 0, 0, 0, 0, 0, 1, 0x02, 0x00, 0x00, 0x78, 0x70]))) + 1\<rparr>\<rparr>)"
    using r g by (simp add: Decoder_def ByteStream_def tc_defs)
  have c: "decodeClassDesc (Suc (Suc (Suc 0))) None (Decoder (ByteStream [0x72, 0x00, 0x01, 0x43, 0x80, 0, 0, 0, 0, 0, 0, 1, 0x02, 0x00, 0x00, 0x78, 0x70])) =
       Ok (ClassDescReference baseWireHandle (ClassDesc ''C'' (VBigInt 9223372036854775809) (ClassDescInfo 2 [] [] VNull)))
        \<lparr> input = \<lparr> bytes = [0x72, 0x00, 0x01, 0x43, 0x80, 0, 0, 0, 0, 0, 0, 1, 0x02, 0x00, 0x00, 0x78, 0x70], position = 17 \<rparr>,
          handle = baseWireHandle + 1,
          objectRegistry = [baseWireHandle \<mapsto> ClassDescReference baseWireHandle (ClassDesc ''C'' (VBigInt 9223372036854775809) (ClassDescInfo 2 [] [] VNull))] \<rparr>"
    unfolding long_values_exact [OF b, where n = "Suc (Suc 0)" and tcArg = None and tag = "0x72"
       and ?d0.0 = "Decoder (ByteStream [0x72, 0x00, 0x01, 0x43, 0x80, 0, 0, 0, 0, 0, 0, 1, 0x02, 0x00, 0x00, 0x78, 0x70])", THEN conjunct2, THEN conjunct2, THEN conjunct2,
       THEN conjunct2, THEN conjunct2, THEN conjunct1, rule_format, OF h]
    by (simp add: stream_defs monad_defs decoder_defs tc_defs u)
  from t [THEN conjunct1]
    t [THEN conjunct2, THEN conjunct2, THEN conjunct2, THEN conjunct2, THEN conjunct2,
       THEN conjunct2, THEN conjunct1]
    t [THEN conjunct2, THEN conjunct2, THEN conjunct2, THEN conjunct2, THEN conjunct2,
       THEN conjunct2, THEN conjunct2, THEN conjunct1]
    t [THEN conjunct2, THEN conjunct2, THEN conjunct2, THEN conjunct2, THEN conjunct1,
       rule_format, OF n, where h = "baseWireHandle + 1" and obj = "[(''x'', VBigInt (- 9223372036854775807))]" and ann = "[]"]
    t [THEN conjunct2, THEN conjunct2, THEN conjunct2, THEN conjunct2, THEN conjunct2,
       THEN conjunct2, THEN conjunct2, THEN conjunct2, THEN conjunct2, THEN conjunct2,
       THEN conjunct2, THEN conjunct2, THEN conjunct2, rule_format, OF i]
    a s u b g r c n
  show ?thesis
    by (simp add: Decoder_def ByteStream_def)
qed

subsection \<open>C3: handle allocation\<close>

text \<open>
  C3. The counter of a session starts at \<open>baseWireHandle\<close>, and \<open>nextHandle\<close> returns the
  counter and adds one to it: the Nth handle handed out is \<open>baseWireHandle + N - 1\<close>.
  Within the decoder:
  \<^item> a decode that returns leaves a registry whose keys are exactly the handles from
    \<open>baseWireHandle\<close> up to the counter, each holding a record that carries that handle;
  \<^item> a decode that throws leaves no key outside that range;
  \<^item> a content decoded from any state fills every handle it takes, never lowers the
    counter and leaves every registry entry outside the handles it took as it was: no
    handle is handed out twice and no entry is overwritten;
  \<^item> a new string takes the counter value at its start as its handle, carries it, is
    stored under it, and raises the counter by exactly one;
  \<^item> a new class descriptor (the class-descriptor tag given or read) takes the counter value
    at its start, carries it and is stored under it, and the counter is higher afterwards;
    whenever \<open>decodeClassDesc\<close> raises the counter, what it returns is such a record;
  \<^item> a new object and a new array take the counter value that their class descriptor
    left, carry it and are stored under it, and the counter is higher afterwards;
  \<^item> the outcome of \<open>decode\<close> on a buffer does not depend on the fuel, once there is
    enough of it: decoding the same bytes twice gives the same contents, the same counter
    and the same registry.
\<close>

theorem handles_sequential:
  "handle (Decoder i) = baseWireHandle
   \<and> nextHandle d0 = Ok (handle d0) (d0\<lparr>handle := handle d0 + 1\<rparr>)
   \<and> (decode fuel i = Ok contents d \<longrightarrow>
        baseWireHandle \<le> handle d
        \<and> dom (objectRegistry d) = {baseWireHandle ..< handle d}
        \<and> (\<forall>h r. objectRegistry d h = Some r \<longrightarrow> handle_of r = Some h))
   \<and> (decode fuel i = Throw e d \<longrightarrow>
        baseWireHandle \<le> handle d \<and> dom (objectRegistry d) \<subseteq> {baseWireHandle ..< handle d})
   \<and> (decodeContent n d0 = Ok v d1 \<longrightarrow>
        handle d0 \<le> handle d1
        \<and> (\<forall>h. handle d0 \<le> h \<and> h < handle d1 \<longrightarrow>
              (\<exists>r. objectRegistry d1 h = Some r \<and> handle_of r = Some h))
        \<and> (\<forall>h. h < handle d0 \<or> handle d1 \<le> h \<longrightarrow> objectRegistry d1 h = objectRegistry d0 h))
   \<and> (decodeNewString False d0 = Ok r d1 \<longrightarrow>
        (\<exists>s. r = StringReference (handle d0) s) \<and> handle d1 = handle d0 + 1
        \<and> objectRegistry d1 (handle d0) = Some r)
   \<and> (decodeClassDesc (Suc n) tcArg d0 = Ok r d1 \<and> handle d0 < handle d1 \<longrightarrow>
        (\<exists>cd. r = ClassDescReference (handle d0) cd) \<and> objectRegistry d1 (handle d0) = Some r)
   \<and> (decodeClassDesc (Suc n) tcArg d0 = Ok r d1
        \<and> (tcArg = Some TC_CLASSDESC
           \<or> tcArg = None \<and> getBytes (input d0) 1 = Some [tag] \<and> uint tag = TC_CLASSDESC) \<longrightarrow>
        (\<exists>cd. r = ClassDescReference (handle d0) cd) \<and> handle d0 < handle d1
        \<and> objectRegistry d1 (handle d0) = Some r)
   \<and> (decodeNewObject (Suc n) d0 = Ok r d1 \<longrightarrow>
        (\<exists>ref dc cd obj ann. decodeClassDesc n None d0 = Ok ref dc
           \<and> r = ObjectReference (handle dc) cd obj ann
           \<and> handle dc < handle d1 \<and> objectRegistry d1 (handle dc) = Some r))
   \<and> (decodeNewArray (Suc n) d0 = Ok r d1 \<longrightarrow>
        (\<exists>ref dc cdo vs. decodeClassDesc n None d0 = Ok ref dc
           \<and> r = ArrayReference (handle dc) cdo vs
           \<and> handle dc < handle d1 \<and> objectRegistry d1 (handle dc) = Some r))
   \<and> (decode fuel i \<noteq> OutOfFuel \<and> decode fuel' i \<noteq> OutOfFuel \<longrightarrow> decode fuel' i = decode fuel i)"
proof -
  have new_string: "decodeNewString False d0 = Ok r d1 \<longrightarrow>
        (\<exists>s. r = StringReference (handle d0) s) \<and> handle d1 = handle d0 + 1
        \<and> objectRegistry d1 (handle d0) = Some r"
    using decodeNewString_Ok [of d0 r d1] by blast
  have new_classDesc: "decodeClassDesc (Suc n) tcArg d0 = Ok r d1 \<and> handle d0 < handle d1 \<longrightarrow>
        (\<exists>cd. r = ClassDescReference (handle d0) cd) \<and> objectRegistry d1 (handle d0) = Some r"
    using decodeClassDesc_Ok [of n tcArg d0 r d1] by blast
  have new_classDesc': "decodeClassDesc (Suc n) tcArg d0 = Ok r d1
        \<and> (tcArg = Some TC_CLASSDESC
           \<or> tcArg = None \<and> getBytes (input d0) 1 = Some [tag] \<and> uint tag = TC_CLASSDESC) \<longrightarrow>
        (\<exists>cd. r = ClassDescReference (handle d0) cd) \<and> handle d0 < handle d1
        \<and> objectRegistry d1 (handle d0) = Some r"
    using decodeClassDesc_new_Ok [of n tcArg d0 r d1 tag] by blast
  have new_object: "decodeNewObject (Suc n) d0 = Ok r d1 \<longrightarrow>
        (\<exists>ref dc cd obj ann. decodeClassDesc n None d0 = Ok ref dc
           \<and> r = ObjectReference (handle dc) cd obj ann
           \<and> handle dc < handle d1 \<and> objectRegistry d1 (handle dc) = Some r)"
    using decodeNewObject_Ok [of n d0 r d1] by blast
  have new_array: "decodeNewArray (Suc n) d0 = Ok r d1 \<longrightarrow>
        (\<exists>ref dc cdo vs. decodeClassDesc n None d0 = Ok ref dc
           \<and> r = ArrayReference (handle dc) cdo vs
           \<and> handle dc < handle d1 \<and> objectRegistry d1 (handle dc) = Some r)"
    using decodeNewArray_Ok [of n d0 r d1] by blast
  have rest: "handle (Decoder i) = baseWireHandle
   \<and> nextHandle d0 = Ok (handle d0) (d0\<lparr>handle := handle d0 + 1\<rparr>)
   \<and> (decode fuel i = Ok contents d \<longrightarrow>
        baseWireHandle \<le> handle d
        \<and> dom (objectRegistry d) = {baseWireHandle ..< handle d}
        \<and> (\<forall>h r. objectRegistry d h = Some r \<longrightarrow> handle_of r = Some h))
   \<and> (decode fuel i = Throw e d \<longrightarrow>
        baseWireHandle \<le> handle d \<and> dom (objectRegistry d) \<subseteq> {baseWireHandle ..< handle d})
   \<and> (decodeContent n d0 = Ok v d1 \<longrightarrow>
        handle d0 \<le> handle d1
        \<and> (\<forall>h. handle d0 \<le> h \<and> h < handle d1 \<longrightarrow>
              (\<exists>r. objectRegistry d1 h = Some r \<and> handle_of r = Some h))
        \<and> (\<forall>h. h < handle d0 \<or> handle d1 \<le> h \<longrightarrow> objectRegistry d1 h = objectRegistry d0 h))
   \<and> (decode fuel i \<noteq> OutOfFuel \<and> decode fuel' i \<noteq> OutOfFuel \<longrightarrow> decode fuel' i = decode fuel i)"
  proof (intro conjI impI)
  show "handle (Decoder i) = baseWireHandle"
    by (simp add: Decoder_def)
  show "nextHandle d0 = Ok (handle d0) (d0\<lparr>handle := handle d0 + 1\<rparr>)"
    by (simp add: nextHandle_def)
next
  assume "decode fuel i = Ok contents d"
  then have "decode_method fuel (Decoder i) = Ok contents d"
    by (simp add: decode_def)
  with allocating_decode_method have a: "allocates (Decoder i) d"
    by (rule allocating_Ok)
  then show "baseWireHandle \<le> handle d"
    by (simp add: allocates_def grows_def Decoder_def)
  from a have out: "\<And>h. h < baseWireHandle \<or> handle d \<le> h \<Longrightarrow> objectRegistry d h = None"
    and inside: "\<And>h. baseWireHandle \<le> h \<Longrightarrow> h < handle d \<Longrightarrow> filled d h"
    by (auto simp: allocates_def grows_def Decoder_def)
  have range: "baseWireHandle \<le> h \<and> h < handle d" if "objectRegistry d h \<noteq> None" for h
  proof (rule ccontr)
    assume "\<not> (baseWireHandle \<le> h \<and> h < handle d)"
    then have "h < baseWireHandle \<or> handle d \<le> h" by arith
    then have "objectRegistry d h = None" by (rule out)
    with that show False by simp
  qed
  show "dom (objectRegistry d) = {baseWireHandle ..< handle d}"
  proof (intro set_eqI iffI)
    fix h
    assume "h \<in> dom (objectRegistry d)"
    then have "objectRegistry d h \<noteq> None" by auto
    then show "h \<in> {baseWireHandle ..< handle d}" using range [of h] by simp
  next
    fix h
    assume "h \<in> {baseWireHandle ..< handle d}"
    then have "filled d h" using inside by simp
    then show "h \<in> dom (objectRegistry d)" by (auto simp: filled_def)
  qed
  show "\<forall>h r. objectRegistry d h = Some r \<longrightarrow> handle_of r = Some h"
  proof (intro allI impI)
    fix h r
    assume s: "objectRegistry d h = Some r"
    then have "baseWireHandle \<le> h" "h < handle d" using range [of h] by simp_all
    then have "filled d h" by (rule inside)
    with s show "handle_of r = Some h" by (simp add: filled_def)
  qed
next
  assume "decode fuel i = Throw e d"
  then have "decode_method fuel (Decoder i) = Throw e d"
    by (simp add: decode_def)
  with allocating_decode_method have g: "grows (Decoder i) d"
    by (rule allocating_Throw)
  then show "baseWireHandle \<le> handle d"
    by (simp add: grows_def Decoder_def)
  from g have out: "\<And>h. h < baseWireHandle \<or> handle d \<le> h \<Longrightarrow> objectRegistry d h = None"
    by (auto simp: grows_def Decoder_def)
  show "dom (objectRegistry d) \<subseteq> {baseWireHandle ..< handle d}"
  proof
    fix h
    assume "h \<in> dom (objectRegistry d)"
    then have k: "objectRegistry d h \<noteq> None" by auto
    have "baseWireHandle \<le> h \<and> h < handle d"
    proof (rule ccontr)
      assume "\<not> (baseWireHandle \<le> h \<and> h < handle d)"
      then have "h < baseWireHandle \<or> handle d \<le> h" by arith
      then have "objectRegistry d h = None" by (rule out)
      with k show False by simp
    qed
    then show "h \<in> {baseWireHandle ..< handle d}" by simp
  qed
next
  assume r: "decodeContent n d0 = Ok v d1"
  have "allocating (decodeContent n)"
    using decode_allocating [of n] by simp
  then have a: "allocates d0 d1" using r by (rule allocating_Ok)
  then show "handle d0 \<le> handle d1"
    by (simp add: allocates_def grows_def)
  from a show "\<forall>h. handle d0 \<le> h \<and> h < handle d1 \<longrightarrow>
              (\<exists>r. objectRegistry d1 h = Some r \<and> handle_of r = Some h)"
    by (simp add: allocates_def filled_def)
  from a show "\<forall>h. h < handle d0 \<or> handle d1 \<le> h \<longrightarrow> objectRegistry d1 h = objectRegistry d0 h"
    by (simp add: allocates_def grows_def)
next
  assume "decode fuel i \<noteq> OutOfFuel \<and> decode fuel' i \<noteq> OutOfFuel"
  then show "decode fuel' i = decode fuel i"
    by (simp add: decode_fuel_independent)
qed
  from rest new_string new_classDesc new_classDesc' new_object new_array show ?thesis
    by blast
qed

text \<open>
  Five records in allocation order: the class descriptor \<open>A\<close>, an array of that class, its
  element (the string \<open>a\<close>), the class descriptor \<open>C\<close>, an object of that class. They carry the
  handles \<open>baseWireHandle\<close>, \<open>+ 1\<close>, \<open>+ 2\<close>, \<open>+ 3\<close>, \<open>+ 4\<close>. Then each kind alone, from a fresh
  session: a string, a class descriptor, an object, an array; a decode that throws; and the
  same buffer decoded with two fuels.
\<close>

theorem handles_sequential_witness:
  "decode (Suc (Suc (Suc (Suc (Suc (Suc (Suc (Suc (Suc 0)))))))))
      (ByteStream [0xAC, 0xED, 0x00, 0x05,
        0x75, 0x72, 0x00, 0x01, 0x41, 0, 0, 0, 0, 0, 0, 0, 1, 0x02, 0x00, 0x00, 0x78, 0x70,
        0x00, 0x00, 0x00, 0x01, 0x74, 0x00, 0x01, 0x61,
        0x73, 0x72, 0x00, 0x01, 0x43, 0, 0, 0, 0, 0, 0, 0, 2, 0x02, 0x00, 0x00, 0x78, 0x70]) =
     Ok [VArray [VString ''a''], VRecord []]
        \<lparr> input = \<lparr> bytes = [0xAC, 0xED, 0x00, 0x05,
        0x75, 0x72, 0x00, 0x01, 0x41, 0, 0, 0, 0, 0, 0, 0, 1, 0x02, 0x00, 0x00, 0x78, 0x70,
        0x00, 0x00, 0x00, 0x01, 0x74, 0x00, 0x01, 0x61,
        0x73, 0x72, 0x00, 0x01, 0x43, 0, 0, 0, 0, 0, 0, 0, 2, 0x02, 0x00, 0x00, 0x78, 0x70], position = 48 \<rparr>,
          handle = baseWireHandle + 5,
          objectRegistry = [baseWireHandle \<mapsto> ClassDescReference baseWireHandle (ClassDesc ''A'' (VBigInt 1) (ClassDescInfo 2 [] [] VNull)),
            baseWireHandle + 2 \<mapsto> StringReference (baseWireHandle + 2) ''a'',
            baseWireHandle + 1 \<mapsto>
              ArrayReference (baseWireHandle + 1) (Some (ClassDesc ''A'' (VBigInt 1) (ClassDescInfo 2 [] [] VNull))) [StringReference (baseWireHandle + 2) ''a''],
            baseWireHandle + 3 \<mapsto> ClassDescReference (baseWireHandle + 3) (ClassDesc ''C'' (VBigInt 2) (ClassDescInfo 2 [] [] VNull)),
            baseWireHandle + 4 \<mapsto> ObjectReference (baseWireHandle + 4) (ClassDesc ''C'' (VBigInt 2) (ClassDescInfo 2 [] [] VNull)) [] []] \<rparr>
   \<and> dom [baseWireHandle \<mapsto> ClassDescReference baseWireHandle (ClassDesc ''A'' (VBigInt 1) (ClassDescInfo 2 [] [] VNull)),
            baseWireHandle + 2 \<mapsto> StringReference (baseWireHandle + 2) ''a'',
            baseWireHandle + 1 \<mapsto>
              ArrayReference (baseWireHandle + 1) (Some (ClassDesc ''A'' (VBigInt 1) (ClassDescInfo 2 [] [] VNull))) [StringReference (baseWireHandle + 2) ''a''],
            baseWireHandle + 3 \<mapsto> ClassDescReference (baseWireHandle + 3) (ClassDesc ''C'' (VBigInt 2) (ClassDescInfo 2 [] [] VNull)),
            baseWireHandle + 4 \<mapsto> ObjectReference (baseWireHandle + 4) (ClassDesc ''C'' (VBigInt 2) (ClassDescInfo 2 [] [] VNull)) [] []] =
       {baseWireHandle ..< baseWireHandle + 5}
   \<and> decodeNewString False (Decoder (ByteStream [0x00, 0x01, 0x61])) =
       Ok (StringReference baseWireHandle ''a'')
        \<lparr> input = \<lparr> bytes = [0x00, 0x01, 0x61], position = 3 \<rparr>,
          handle = baseWireHandle + 1,
          objectRegistry = [baseWireHandle \<mapsto> StringReference baseWireHandle ''a''] \<rparr>
   \<and> decodeClassDesc (Suc (Suc (Suc 0))) None (Decoder (ByteStream [0x72, 0x00, 0x01, 0x43, 0, 0, 0, 0, 0, 0, 0, 2, 0x02, 0x00, 0x00, 0x78, 0x70])) =
       Ok (ClassDescReference baseWireHandle (ClassDesc ''C'' (VBigInt 2) (ClassDescInfo 2 [] [] VNull)))
        \<lparr> input = \<lparr> bytes = [0x72, 0x00, 0x01, 0x43, 0, 0, 0, 0, 0, 0, 0, 2, 0x02, 0x00, 0x00, 0x78, 0x70], position = 17 \<rparr>,
          handle = baseWireHandle + 1,
          objectRegistry = [baseWireHandle \<mapsto> ClassDescReference baseWireHandle (ClassDesc ''C'' (VBigInt 2) (ClassDescInfo 2 [] [] VNull))] \<rparr>
   \<and> decodeNewObject (Suc (Suc (Suc (Suc 0)))) (Decoder (ByteStream [0x72, 0x00, 0x01, 0x43, 0, 0, 0, 0, 0, 0, 0, 2, 0x02, 0x00, 0x00, 0x78, 0x70])) =
       Ok (ObjectReference (baseWireHandle + 1) (ClassDesc ''C'' (VBigInt 2) (ClassDescInfo 2 [] [] VNull)) [] [])
        \<lparr> input = \<lparr> bytes = [0x72, 0x00, 0x01, 0x43, 0, 0, 0, 0, 0, 0, 0, 2, 0x02, 0x00, 0x00, 0x78, 0x70], position = 17 \<rparr>,
          handle = baseWireHandle + 2,
          objectRegistry = [baseWireHandle \<mapsto> ClassDescReference baseWireHandle (ClassDesc ''C'' (VBigInt 2) (ClassDescInfo 2 [] [] VNull)),
            baseWireHandle + 1 \<mapsto> ObjectReference (baseWireHandle + 1) (ClassDesc ''C'' (VBigInt 2) (ClassDescInfo 2 [] [] VNull)) [] []] \<rparr>
   \<and> decodeNewArray (Suc (Suc (Suc (Suc 0)))) (Decoder (ByteStream [0x72, 0x00, 0x01, 0x41, 0, 0, 0, 0, 0, 0, 0, 1, 0x02, 0x00, 0x00, 0x78, 0x70, 0x00, 0x00, 0x00, 0x00])) =
       Ok (ArrayReference (baseWireHandle + 1) (Some (ClassDesc ''A'' (VBigInt 1) (ClassDescInfo 2 [] [] VNull))) [])
        \<lparr> input = \<lparr> bytes = [0x72, 0x00, 0x01, 0x41, 0, 0, 0, 0, 0, 0, 0, 1, 0x02, 0x00, 0x00, 0x78, 0x70, 0x00, 0x00, 0x00, 0x00], position = 21 \<rparr>,
          handle = baseWireHandle + 2,
          objectRegistry = [baseWireHandle \<mapsto> ClassDescReference baseWireHandle (ClassDesc ''A'' (VBigInt 1) (ClassDescInfo 2 [] [] VNull)),
            baseWireHandle + 1 \<mapsto> ArrayReference (baseWireHandle + 1) (Some (ClassDesc ''A'' (VBigInt 1) (ClassDescInfo 2 [] [] VNull))) []] \<rparr>
   \<and> decode 3 (ByteStream [0xAC, 0xED, 0x00, 0x05, 0x7C]) =
       Throw NotImplementedLongString
        \<lparr> input = \<lparr> bytes = [0xAC, 0xED, 0x00, 0x05, 0x7C], position = 5 \<rparr>,
          handle = baseWireHandle + 1, objectRegistry = Map.empty \<rparr>
   \<and> decode 4 (ByteStream [0xAC, 0xED, 0x00, 0x05, 0x70]) = decode 3 (ByteStream [0xAC, 0xED, 0x00, 0x05, 0x70])"
proof -
  have run: "decode (Suc (Suc (Suc (Suc (Suc (Suc (Suc (Suc (Suc 0)))))))))
      (ByteStream [0xAC, 0xED, 0x00, 0x05,
        0x75, 0x72, 0x00, 0x01, 0x41, 0, 0, 0, 0, 0, 0, 0, 1, 0x02, 0x00, 0x00, 0x78, 0x70,
        0x00, 0x00, 0x00, 0x01, 0x74, 0x00, 0x01, 0x61,
        0x73, 0x72, 0x00, 0x01, 0x43, 0, 0, 0, 0, 0, 0, 0, 2, 0x02, 0x00, 0x00, 0x78, 0x70]) =
     Ok [VArray [VString ''a''], VRecord []]
        \<lparr> input = \<lparr> bytes = [0xAC, 0xED, 0x00, 0x05,
        0x75, 0x72, 0x00, 0x01, 0x41, 0, 0, 0, 0, 0, 0, 0, 1, 0x02, 0x00, 0x00, 0x78, 0x70,
        0x00, 0x00, 0x00, 0x01, 0x74, 0x00, 0x01, 0x61,
        0x73, 0x72, 0x00, 0x01, 0x43, 0, 0, 0, 0, 0, 0, 0, 2, 0x02, 0x00, 0x00, 0x78, 0x70], position = 48 \<rparr>,
          handle = baseWireHandle + 5,
          objectRegistry = [baseWireHandle \<mapsto> ClassDescReference baseWireHandle (ClassDesc ''A'' (VBigInt 1) (ClassDescInfo 2 [] [] VNull)),
            baseWireHandle + 2 \<mapsto> StringReference (baseWireHandle + 2) ''a'',
            baseWireHandle + 1 \<mapsto>
              ArrayReference (baseWireHandle + 1) (Some (ClassDesc ''A'' (VBigInt 1) (ClassDescInfo 2 [] [] VNull))) [StringReference (baseWireHandle + 2) ''a''],
            baseWireHandle + 3 \<mapsto> ClassDescReference (baseWireHandle + 3) (ClassDesc ''C'' (VBigInt 2) (ClassDescInfo 2 [] [] VNull)),
            baseWireHandle + 4 \<mapsto> ObjectReference (baseWireHandle + 4) (ClassDesc ''C'' (VBigInt 2) (ClassDescInfo 2 [] [] VNull)) [] []] \<rparr>"
    by (simp add: stream_defs monad_defs decoder_defs tc_defs STREAM_MAGIC_def string_a string_A string_C
        prop_classDesc_def allFieldsFromClassDesc.simps finishNewObject_def
        SC_SERIALIZABLE_def SC_WRITE_METHOD_def baseWireHandle_def)
  have s0: "decodeNewString False (Decoder (ByteStream [0x00, 0x01, 0x61])) =
       Ok (StringReference baseWireHandle ''a'')
        \<lparr> input = \<lparr> bytes = [0x00, 0x01, 0x61], position = 3 \<rparr>,
          handle = baseWireHandle + 1,
          objectRegistry = [baseWireHandle \<mapsto> StringReference baseWireHandle ''a''] \<rparr>"
    by (simp add: stream_defs monad_defs decoder_defs string_a baseWireHandle_def)
  have c0: "decodeClassDesc (Suc (Suc (Suc 0))) None (Decoder (ByteStream [0x72, 0x00, 0x01, 0x43, 0, 0, 0, 0, 0, 0, 0, 2, 0x02, 0x00, 0x00, 0x78, 0x70])) =
       Ok (ClassDescReference baseWireHandle (ClassDesc ''C'' (VBigInt 2) (ClassDescInfo 2 [] [] VNull)))
        \<lparr> input = \<lparr> bytes = [0x72, 0x00, 0x01, 0x43, 0, 0, 0, 0, 0, 0, 0, 2, 0x02, 0x00, 0x00, 0x78, 0x70], position = 17 \<rparr>,
          handle = baseWireHandle + 1,
          objectRegistry = [baseWireHandle \<mapsto> ClassDescReference baseWireHandle (ClassDesc ''C'' (VBigInt 2) (ClassDescInfo 2 [] [] VNull))] \<rparr>"
    by (simp add: stream_defs monad_defs decoder_defs tc_defs string_C baseWireHandle_def)
  have g0: "getBytes (input (Decoder (ByteStream [0x72, 0x00, 0x01, 0x43, 0, 0, 0, 0, 0, 0, 0, 2, 0x02, 0x00, 0x00, 0x78, 0x70]))) 1 = Some [0x72] \<and> uint (0x72 :: byte) = TC_CLASSDESC"
    by (simp add: Decoder_def ByteStream_def getBytes_def length_bs_def tc_defs)
  have o0: "decodeNewObject (Suc (Suc (Suc (Suc 0)))) (Decoder (ByteStream [0x72, 0x00, 0x01, 0x43, 0, 0, 0, 0, 0, 0, 0, 2, 0x02, 0x00, 0x00, 0x78, 0x70])) =
       Ok (ObjectReference (baseWireHandle + 1) (ClassDesc ''C'' (VBigInt 2) (ClassDescInfo 2 [] [] VNull)) [] [])
        \<lparr> input = \<lparr> bytes = [0x72, 0x00, 0x01, 0x43, 0, 0, 0, 0, 0, 0, 0, 2, 0x02, 0x00, 0x00, 0x78, 0x70], position = 17 \<rparr>,
          handle = baseWireHandle + 2,
          objectRegistry = [baseWireHandle \<mapsto> ClassDescReference baseWireHandle (ClassDesc ''C'' (VBigInt 2) (ClassDescInfo 2 [] [] VNull)),
            baseWireHandle + 1 \<mapsto> ObjectReference (baseWireHandle + 1) (ClassDesc ''C'' (VBigInt 2) (ClassDescInfo 2 [] [] VNull)) [] []] \<rparr>"
    by (simp add: stream_defs monad_defs decoder_defs tc_defs string_C prop_classDesc_def
        allFieldsFromClassDesc.simps finishNewObject_def SC_SERIALIZABLE_def SC_WRITE_METHOD_def
        baseWireHandle_def)
  have a0: "decodeNewArray (Suc (Suc (Suc (Suc 0)))) (Decoder (ByteStream [0x72, 0x00, 0x01, 0x41, 0, 0, 0, 0, 0, 0, 0, 1, 0x02, 0x00, 0x00, 0x78, 0x70, 0x00, 0x00, 0x00, 0x00])) =
       Ok (ArrayReference (baseWireHandle + 1) (Some (ClassDesc ''A'' (VBigInt 1) (ClassDescInfo 2 [] [] VNull))) [])
        \<lparr> input = \<lparr> bytes = [0x72, 0x00, 0x01, 0x41, 0, 0, 0, 0, 0, 0, 0, 1, 0x02, 0x00, 0x00, 0x78, 0x70, 0x00, 0x00, 0x00, 0x00], position = 21 \<rparr>,
          handle = baseWireHandle + 2,
          objectRegistry = [baseWireHandle \<mapsto> ClassDescReference baseWireHandle (ClassDesc ''A'' (VBigInt 1) (ClassDescInfo 2 [] [] VNull)),
            baseWireHandle + 1 \<mapsto> ArrayReference (baseWireHandle + 1) (Some (ClassDesc ''A'' (VBigInt 1) (ClassDescInfo 2 [] [] VNull))) []] \<rparr>"
    by (simp add: stream_defs monad_defs decoder_defs tc_defs string_A prop_classDesc_def
        baseWireHandle_def)
  have t0: "decode 3 (ByteStream [0xAC, 0xED, 0x00, 0x05, 0x7C]) =
       Throw NotImplementedLongString
        \<lparr> input = \<lparr> bytes = [0xAC, 0xED, 0x00, 0x05, 0x7C], position = 5 \<rparr>,
          handle = baseWireHandle + 1, objectRegistry = Map.empty \<rparr>"
    by (simp add: stream_defs monad_defs decoder_defs tc_defs STREAM_MAGIC_def
        numeral_3_eq_3 baseWireHandle_def)
  have f3: "decode 3 (ByteStream [0xAC, 0xED, 0x00, 0x05, 0x70]) \<noteq> OutOfFuel"
    by (simp add: stream_defs monad_defs decoder_defs tc_defs STREAM_MAGIC_def numeral_3_eq_3)
  have e4: "(4::nat) = Suc (Suc (Suc (Suc 0)))"
    by simp
  have f4: "decode 4 (ByteStream [0xAC, 0xED, 0x00, 0x05, 0x70]) \<noteq> OutOfFuel"
    unfolding e4
    by (simp add: stream_defs monad_defs decoder_defs tc_defs STREAM_MAGIC_def)
  from handles_sequential [THEN conjunct2, THEN conjunct2, THEN conjunct1, rule_format, OF run]
    handles_sequential [THEN conjunct2, THEN conjunct2, THEN conjunct2, THEN conjunct1,
      rule_format, OF t0]
    handles_sequential [THEN conjunct2, THEN conjunct2, THEN conjunct2, THEN conjunct2,
      THEN conjunct2, THEN conjunct1, rule_format, OF s0]
    handles_sequential [where tag = "0x72", THEN conjunct2, THEN conjunct2, THEN conjunct2, THEN conjunct2,
      THEN conjunct2, THEN conjunct2, THEN conjunct2, THEN conjunct1, rule_format,
      OF conjI [OF c0 disjI2 [OF conjI [OF refl g0]]]]
    handles_sequential [THEN conjunct2, THEN conjunct2, THEN conjunct2, THEN conjunct2,
      THEN conjunct2, THEN conjunct2, THEN conjunct2, THEN conjunct2, THEN conjunct1,
      rule_format, OF o0]
    handles_sequential [THEN conjunct2, THEN conjunct2, THEN conjunct2, THEN conjunct2,
      THEN conjunct2, THEN conjunct2, THEN conjunct2, THEN conjunct2, THEN conjunct2,
      THEN conjunct1, rule_format, OF a0]
    handles_sequential [THEN conjunct2, THEN conjunct2, THEN conjunct2, THEN conjunct2,
      THEN conjunct2, THEN conjunct2, THEN conjunct2, THEN conjunct2, THEN conjunct2,
      THEN conjunct2, rule_format, OF conjI [OF f3 f4]]
    run s0 c0 o0 a0 t0
  show ?thesis
    by (simp add: baseWireHandle_def)
qed

end
